theory Spec2Isabelle
  imports Complex_Main
begin

section \<open>Data model\<close>

text \<open>
  JavaScript numbers are modelled as exact reals (the coin counter and the leaderboard
  scores, which only ever hold integers, as \<open>int\<close>): rounding, NaN and the infinities of
  IEEE doubles are outside the model. Decimal literals of the source (\<open>0.4\<close>, \<open>1.2\<close>,
  \<open>0.01\<close>, ...) are the exact rationals they denote.

  \<open>RoadObject\<close> of \<open>types.ts\<close>; the fields \<open>x\<close>, \<open>y\<close> and \<open>type\<close> are written
  \<open>objX\<close>, \<open>objY\<close> and \<open>objType\<close>.
\<close>

datatype objectType = Obstacle | Coin | Scenery

record RoadObject =
  objX :: real
  objY :: real
  initialWidth :: real
  initialHeight :: real
  color :: string
  objType :: objectType

text \<open>An entry of \<open>roadLines\<close>: the object \<open>{ y: number }\<close>.\<close>

record RoadLine =
  lineY :: real

text \<open>The record held by \<open>stateRef.current\<close> in \<open>GameEngine.tsx\<close>.\<close>

record SimState =
  carX :: real
  roadCurvature :: real
  curveDirection :: real
  curveTimer :: real
  score :: real
  coins :: int
  speed :: real
  obstacles :: "RoadObject list"
  coinsList :: "RoadObject list"
  scenery :: "RoadObject list"
  roadLines :: "RoadLine list"
  keys :: "string \<Rightarrow> bool"
  touchX :: "real option"
  horizonY :: real

text \<open>
  The component's props \<open>gameWidth\<close> and \<open>gameHeight\<close>, together with the three constants
  that \<open>GameEngine.tsx\<close> imports from \<open>../constants\<close>. The constants file is not part of
  the sources at hand, so its values are parameters of the model.
\<close>

record config =
  gameWidth :: real
  gameHeight :: real
  TRACK_TOP_WIDTH_RATIO :: real
  TRACK_BOTTOM_WIDTH_RATIO :: real
  ROAD_SPEED_BASE :: real

text \<open>The object returned by \<open>getProjection\<close> (fields \<open>x\<close>, \<open>y\<close>, \<open>width\<close>, \<open>height\<close>, \<open>zIndex\<close>).\<close>

record Projection =
  projX :: real
  projY :: real
  projWidth :: real
  projHeight :: real
  zIndex :: real

text \<open>The object returned by \<open>drawPlayer\<close> (fields \<open>x\<close>, \<open>y\<close>, \<open>width\<close>, \<open>height\<close>).\<close>

record PlayerBox =
  boxX :: real
  boxY :: real
  boxWidth :: real
  boxHeight :: real

text \<open>The two callbacks of the component, as the events they deliver to the host.\<close>

datatype callback = OnGameOver int int | OnScoreUpdate int int

section \<open>Initial value of the state reference\<close>

definition initialRef :: SimState where
  "initialRef =
     \<lparr> carX = 0, roadCurvature = 0, curveDirection = 1, curveTimer = 0, score = 0,
       coins = 0, speed = 10, obstacles = [], coinsList = [], scenery = [],
       roadLines = [], keys = (\<lambda>k. False), touchX = None, horizonY = 0 \<rparr>"

section \<open>initGame\<close>

text \<open>
  \<open>rs k\<close> is the value of the \<open>k\<close>-th call of \<open>Math.random()\<close> made by \<open>initGame\<close>
  (two calls in each of the ten rounds of the scenery loop). The object spread
  \<open>...stateRef.current\<close> keeps every field that the literal does not list.
\<close>

definition sceneryObject :: "real \<Rightarrow> real \<Rightarrow> RoadObject" where
  "sceneryObject lane depth =
     \<lparr> objX = lane, objY = depth, initialWidth = 400, initialHeight = 150,
       color = ''#444'', objType = Scenery \<rparr>"

definition initGame :: "config \<Rightarrow> (nat \<Rightarrow> real) \<Rightarrow> SimState \<Rightarrow> SimState" where
  "initGame cfg rs s =
     (let h = gameHeight cfg * 0.4 in
      s \<lparr> carX := 0,
          roadCurvature := 0,
          score := 0,
          coins := 0,
          speed := ROAD_SPEED_BASE cfg,
          obstacles := [],
          coinsList := [],
          scenery := concat (map (\<lambda>i.
             [sceneryObject (-2.5) (h + rs (2 * i) * gameHeight cfg),
              sceneryObject 2.5 (h + rs (2 * i + 1) * gameHeight cfg)]) [0..<10]),
          roadLines := map (\<lambda>i. \<lparr> lineY = h + (real i * (gameHeight cfg - h) / 12) \<rparr>) [0..<12],
          horizonY := h \<rparr>)"

section \<open>Input handlers\<close>

definition handleKeyDown :: "string \<Rightarrow> SimState \<Rightarrow> SimState" where
  "handleKeyDown k s = s \<lparr> keys := (keys s)(k := True) \<rparr>"

definition handleKeyUp :: "string \<Rightarrow> SimState \<Rightarrow> SimState" where
  "handleKeyUp k s = s \<lparr> keys := (keys s)(k := False) \<rparr>"

definition handleTouchStart :: "real \<Rightarrow> SimState \<Rightarrow> SimState" where
  "handleTouchStart clientX s = s \<lparr> touchX := Some clientX \<rparr>"

definition handleTouchMove :: "real \<Rightarrow> SimState \<Rightarrow> SimState" where
  "handleTouchMove newX s =
     (case touchX s of
        None \<Rightarrow> s
      | Some t \<Rightarrow> (let diff = newX - t in s \<lparr> carX := carX s + diff * 0.005, touchX := Some newX \<rparr>))"

definition handleTouchEnd :: "SimState \<Rightarrow> SimState" where
  "handleTouchEnd s = s \<lparr> touchX := None \<rparr>"

section \<open>Projection\<close>

definition getProjection :: "config \<Rightarrow> SimState \<Rightarrow> RoadObject \<Rightarrow> real \<Rightarrow> Projection option" where
  "getProjection cfg s obj h =
     (let perspective = (objY obj - h) / (gameHeight cfg - h) in
      if perspective < 0 \<or> perspective > 1.2 then None
      else
        (let scale = perspective;
             scaledWidth = initialWidth obj * scale;
             scaledHeight = initialHeight obj * scale;
             roadWidthAtY = (gameWidth cfg * TRACK_TOP_WIDTH_RATIO cfg) +
                (gameWidth cfg * (TRACK_BOTTOM_WIDTH_RATIO cfg - TRACK_TOP_WIDTH_RATIO cfg) * perspective);
             curveOffsetAtY = roadCurvature s * (1 - perspective);
             screenX = (gameWidth cfg / 2) + (roadWidthAtY * objX obj * 0.25) + curveOffsetAtY
         in Some \<lparr> projX = screenX, projY = objY obj, projWidth = scaledWidth,
                   projHeight = scaledHeight, zIndex = perspective \<rparr>))"

section \<open>drawPlayer\<close>

text \<open>
  The canvas calls draw and change no state; what remains of \<open>drawPlayer\<close> is the write of
  the clamped \<open>carX\<close> and the returned box.
\<close>

definition drawPlayer :: "config \<Rightarrow> SimState \<Rightarrow> PlayerBox \<times> SimState" where
  "drawPlayer cfg s =
     (let trackWidthBase = gameWidth cfg * TRACK_BOTTOM_WIDTH_RATIO cfg;
          s' = s \<lparr> carX := max (-1.8) (min 1.8 (carX s)) \<rparr>;
          playerX = (gameWidth cfg / 2) + (carX s' * trackWidthBase * 0.06);
          playerY = gameHeight cfg - 80
      in (\<lparr> boxX = playerX, boxY = playerY, boxWidth = 100, boxHeight = 45 \<rparr>, s'))"

section \<open>The tick: render\<close>

text \<open>
  The values of the calls of \<open>Math.random()\<close> that decide the state in one tick (the
  calls that only pick a light colour while drawing are left out).
\<close>

record rnd =
  rObstacle :: real
  rObstacleLane :: real
  rObstacleColor :: real
  rCoin :: real
  rCoinLane :: real
  rCurveTimer :: real
  rCurveDir :: real

text \<open>Step 4: every road line moves by \<open>speed\<close> and wraps to the horizon.\<close>

definition updateRoadLine :: "config \<Rightarrow> real \<Rightarrow> real \<Rightarrow> RoadLine \<Rightarrow> RoadLine" where
  "updateRoadLine cfg h v line =
     (let y' = lineY line + v in
      if y' > gameHeight cfg then line \<lparr> lineY := h \<rparr> else line \<lparr> lineY := y' \<rparr>)"

text \<open>
  Step 5: \<open>allObjects\<close> holds references to the objects of the three lists, so the
  update \<open>obj.y += speed\<close> moves every object of every list; sorting the copy changes no
  list.
\<close>

definition advance :: "real \<Rightarrow> RoadObject \<Rightarrow> RoadObject" where
  "advance v obj = obj \<lparr> objY := objY obj + v \<rparr>"

definition updateObjects :: "SimState \<Rightarrow> SimState" where
  "updateObjects s =
     s \<lparr> obstacles := map (advance (speed s)) (obstacles s),
         coinsList := map (advance (speed s)) (coinsList s),
         scenery := map (advance (speed s)) (scenery s) \<rparr>"

text \<open>Step 7: spawning. \<open>Math.random()\<close> lies in \<open>[0, 1)\<close>, so the colour index is 0, 1 or 2.\<close>

definition pickColor :: "real \<Rightarrow> string" where
  "pickColor r =
     (let i = \<lfloor>r * 3\<rfloor> in
      if i = 0 then ''#2563eb'' else if i = 1 then ''#db2777'' else ''#9333ea'')"

definition spawnObstacle :: "rnd \<Rightarrow> real \<Rightarrow> SimState \<Rightarrow> SimState" where
  "spawnObstacle r h s =
     (if rObstacle r < 0.02 \<and> length (obstacles s) < 5 then
        (let lane = (rObstacleLane r * 4) - 2 in
         s \<lparr> obstacles := obstacles s @
               [\<lparr> objX = lane, objY = h - 50, initialWidth = 80, initialHeight = 40,
                  color = pickColor (rObstacleColor r), objType = Obstacle \<rparr>] \<rparr>)
      else s)"

definition spawnCoin :: "rnd \<Rightarrow> real \<Rightarrow> SimState \<Rightarrow> SimState" where
  "spawnCoin r h s =
     (if rCoin r < 0.03 then
        (let lane = (rCoinLane r * 4) - 2 in
         s \<lparr> coinsList := coinsList s @
               [\<lparr> objX = lane, objY = h - 50, initialWidth = 40, initialHeight = 40,
                  color = ''gold'', objType = Coin \<rparr>] \<rparr>)
      else s)"

text \<open>Step 8: cleanup.\<close>

definition recycle :: "config \<Rightarrow> real \<Rightarrow> RoadObject \<Rightarrow> RoadObject" where
  "recycle cfg h obj = (if objY obj > gameHeight cfg + 200 then obj \<lparr> objY := h - 200 \<rparr> else obj)"

definition cleanup :: "config \<Rightarrow> real \<Rightarrow> SimState \<Rightarrow> SimState" where
  "cleanup cfg h s =
     s \<lparr> obstacles := filter (\<lambda>ob. objY ob < gameHeight cfg + 100) (obstacles s),
         coinsList := filter (\<lambda>ob. objY ob < gameHeight cfg + 100) (coinsList s),
         scenery := map (recycle cfg h) (scenery s) \<rparr>"

text \<open>Step 9: the test of one obstacle, and the \<open>for ... of\<close> loop that stops at the first hit.\<close>

definition hitBoxPadding :: real where
  "hitBoxPadding = 20"

definition obstacleHit :: "config \<Rightarrow> SimState \<Rightarrow> PlayerBox \<Rightarrow> real \<Rightarrow> RoadObject \<Rightarrow> bool" where
  "obstacleHit cfg s player h obs =
     (case getProjection cfg s obs h of
        None \<Rightarrow> False
      | Some proj \<Rightarrow>
          projY proj > boxY player - 20 \<and> projY proj < boxY player + 20 \<and>
          (let obsLeft = projX proj - projWidth proj / 2;
               obsRight = projX proj + projWidth proj / 2;
               playerLeft = boxX player - boxWidth player / 2 + hitBoxPadding;
               playerRight = boxX player + boxWidth player / 2 - hitBoxPadding
           in playerRight > obsLeft \<and> playerLeft < obsRight))"

fun checkEnemyCollisions :: "config \<Rightarrow> SimState \<Rightarrow> PlayerBox \<Rightarrow> real \<Rightarrow> RoadObject list \<Rightarrow> bool" where
  "checkEnemyCollisions cfg s player h [] = False"
| "checkEnemyCollisions cfg s player h (obs # rest) =
     (if obstacleHit cfg s player h obs then True
      else checkEnemyCollisions cfg s player h rest)"

text \<open>
  Step 10: the coin loop \<open>for (i = coinsList.length - 1; i >= 0; i--)\<close>. The argument
  \<open>n\<close> of \<open>coinLoop\<close> is \<open>i + 1\<close>. Reading \<open>coinsList[i]\<close> beyond the end gives
  \<open>undefined\<close>, on which \<open>getProjection\<close> throws a TypeError: that is the result
  \<open>Inl\<close>, carrying the state as mutated so far.
\<close>

definition coinHit :: "config \<Rightarrow> SimState \<Rightarrow> PlayerBox \<Rightarrow> real \<Rightarrow> RoadObject \<Rightarrow> bool" where
  "coinHit cfg s player h coin =
     (case getProjection cfg s coin h of
        None \<Rightarrow> False
      | Some proj \<Rightarrow>
          projY proj > boxY player - 30 \<and> projY proj < boxY player + 30 \<and>
          (let coinLeft = projX proj - projWidth proj / 2;
               coinRight = projX proj + projWidth proj / 2;
               playerLeft = boxX player - boxWidth player / 2;
               playerRight = boxX player + boxWidth player / 2
           in playerRight > coinLeft \<and> playerLeft < coinRight))"

definition splice1 :: "nat \<Rightarrow> 'a list \<Rightarrow> 'a list" where
  "splice1 i xs = take i xs @ drop (Suc i) xs"

fun coinLoop :: "config \<Rightarrow> PlayerBox \<Rightarrow> real \<Rightarrow> nat \<Rightarrow> SimState \<Rightarrow> SimState + SimState" where
  "coinLoop cfg player h 0 s = Inr s"
| "coinLoop cfg player h (Suc i) s =
     (if i < length (coinsList s) then
        (let coin = coinsList s ! i in
         if coinHit cfg s player h coin then
           coinLoop cfg player h i
             (s \<lparr> coins := coins s + 1, score := score s + 50,
                  coinsList := splice1 i (coinsList s) \<rparr>)
         else coinLoop cfg player h i s)
      else Inl s)"

definition checkCoinCollisions :: "config \<Rightarrow> PlayerBox \<Rightarrow> real \<Rightarrow> SimState \<Rightarrow> SimState + SimState" where
  "checkCoinCollisions cfg player h s = coinLoop cfg player h (length (coinsList s)) s"

text \<open>Step 11: lateral input.\<close>

definition moveCar :: "SimState \<Rightarrow> SimState" where
  "moveCar s =
     (let s1 = (if keys s ''ArrowLeft'' \<or> keys s ''a'' then s \<lparr> carX := carX s - 0.05 \<rparr> else s)
      in if keys s1 ''ArrowRight'' \<or> keys s1 ''d'' then s1 \<lparr> carX := carX s1 + 0.05 \<rparr> else s1)"

text \<open>Step 12: curve timer, easing of the curvature, centrifugal pull.\<close>

definition updateCurve :: "rnd \<Rightarrow> SimState \<Rightarrow> SimState" where
  "updateCurve r s =
     (let s1 = s \<lparr> curveTimer := curveTimer s - 1 \<rparr>;
          s2 = (if curveTimer s1 \<le> 0 then
                  s1 \<lparr> curveTimer := rCurveTimer r * 200 + 100,
                       curveDirection := (if rCurveDir r > 0.5 then 1 else -1) \<rparr>
                else s1);
          targetCurve = curveDirection s2 * 200;
          s3 = s2 \<lparr> roadCurvature := roadCurvature s2 + (targetCurve - roadCurvature s2) * 0.01 \<rparr>
      in s3 \<lparr> carX := carX s3 - roadCurvature s3 * 0.0001 \<rparr>)"

text \<open>Step 13: score accrual and the periodic report.\<close>

definition updateScore :: "SimState \<Rightarrow> SimState \<times> callback list" where
  "updateScore s =
     (let s' = s \<lparr> score := score s + 0.5 \<rparr> in
      (s', if \<lfloor>score s'\<rfloor> mod 10 = 0 then [OnScoreUpdate \<lfloor>score s'\<rfloor> (coins s')] else []))"

text \<open>
  The state part of \<open>render\<close> up to the collision checks (steps 4 to 8), with the box
  of the player.
\<close>

definition beforeCollisions :: "config \<Rightarrow> rnd \<Rightarrow> SimState \<Rightarrow> PlayerBox \<times> SimState" where
  "beforeCollisions cfg r s =
     (let h = horizonY s;
          s1 = s \<lparr> roadLines := map (updateRoadLine cfg h (speed s)) (roadLines s) \<rparr>;
          s2 = updateObjects s1;
          (player, s3) = drawPlayer cfg s2;
          s4 = spawnObstacle r h s3;
          s5 = spawnCoin r h s4;
          s6 = cleanup cfg h s5
      in (player, s6))"

text \<open>
  One call of \<open>render\<close>. The result \<open>Inr (s', fired, again)\<close> is the new state, the
  callbacks fired in order, and whether \<open>requestAnimationFrame(render)\<close> was called at the
  end; \<open>Inl s'\<close> is an uncaught TypeError of the coin loop.
\<close>

definition render :: "config \<Rightarrow> rnd \<Rightarrow> SimState \<Rightarrow> SimState + (SimState \<times> callback list \<times> bool)" where
  "render cfg r s =
     (let h = horizonY s;
          (player, s6) = beforeCollisions cfg r s
      in if checkEnemyCollisions cfg s6 player h (obstacles s6) then
           Inr (s6, [OnGameOver \<lfloor>score s6\<rfloor> (coins s6)], False)
         else
           (case checkCoinCollisions cfg player h s6 of
              Inl e \<Rightarrow> Inl e
            | Inr s7 \<Rightarrow>
                (let s8 = moveCar s7;
                     s9 = updateCurve r s8;
                     (s10, fired) = updateScore s9
                 in Inr (s10, fired, True))))"

section \<open>The frame loop of one session\<close>

text \<open>
  What reaches the engine while the phase is PLAYING: an animation frame (with the random
  values its tick draws), and the keyboard and touch events. \<open>pending\<close> says that a frame
  callback is registered (\<open>requestRef\<close>); \<open>fired\<close> collects the callbacks delivered to the
  host, in order. A frame that arrives when no callback is registered runs nothing.
\<close>

datatype event =
    Frame rnd
  | KeyDown string
  | KeyUp string
  | TouchStart real
  | TouchMove real
  | TouchEnd

record engine =
  st :: SimState
  pending :: bool
  fired :: "callback list"

fun step :: "config \<Rightarrow> engine \<Rightarrow> event \<Rightarrow> engine" where
  "step cfg e (Frame r) =
     (if pending e then
        (case render cfg r (st e) of
           Inl s' \<Rightarrow> e \<lparr> st := s', pending := False \<rparr>
         | Inr (s', cbs, again) \<Rightarrow> \<lparr> st = s', pending = again, fired = fired e @ cbs \<rparr>)
      else e)"
| "step cfg e (KeyDown k) = e \<lparr> st := handleKeyDown k (st e) \<rparr>"
| "step cfg e (KeyUp k) = e \<lparr> st := handleKeyUp k (st e) \<rparr>"
| "step cfg e (TouchStart x) = e \<lparr> st := handleTouchStart x (st e) \<rparr>"
| "step cfg e (TouchMove x) = e \<lparr> st := handleTouchMove x (st e) \<rparr>"
| "step cfg e TouchEnd = e \<lparr> st := handleTouchEnd (st e) \<rparr>"

text \<open>
  Entering PLAYING runs \<open>initGame\<close> on whatever the state reference holds and registers
  the first frame callback.
\<close>

definition startSession :: "config \<Rightarrow> (nat \<Rightarrow> real) \<Rightarrow> SimState \<Rightarrow> engine" where
  "startSession cfg rs s0 = \<lparr> st = initGame cfg rs s0, pending = True, fired = [] \<rparr>"

definition session :: "config \<Rightarrow> (nat \<Rightarrow> real) \<Rightarrow> SimState \<Rightarrow> event list \<Rightarrow> engine" where
  "session cfg rs s0 evs = foldl (step cfg) (startSession cfg rs s0) evs"

text \<open>
  The life of the mounted component: the state reference starts as \<open>initialRef\<close> and is
  handed from each session to the next.
\<close>

definition lifetime :: "(config \<times> (nat \<Rightarrow> real) \<times> event list) list \<Rightarrow> SimState" where
  "lifetime ss = foldl (\<lambda>s (cfg, rs, evs). st (session cfg rs s evs)) initialRef ss"

fun isGameOver :: "callback \<Rightarrow> bool" where
  "isGameOver (OnGameOver sc c) = True"
| "isGameOver (OnScoreUpdate sc c) = False"

section \<open>The leaderboard store\<close>

text \<open>
  \<open>ScoreEntry\<close> of \<open>types.ts\<close> (fields \<open>id\<close>, \<open>name\<close>, \<open>score\<close>, \<open>date\<close>). What
  \<open>localStorage\<close> holds under \<open>STORAGE_KEY\<close> is either nothing, something that makes
  \<open>getItem\<close> or \<open>JSON.parse\<close> throw, or a list of entries.
\<close>

record ScoreEntry =
  entryId :: string
  entryName :: string
  entryScore :: int
  entryDate :: string

datatype stored = Absent | Unreadable | Holds "ScoreEntry list"

definition getDB :: "stored \<Rightarrow> ScoreEntry list" where
  "getDB store = (case store of Absent \<Rightarrow> [] | Unreadable \<Rightarrow> [] | Holds xs \<Rightarrow> xs)"

text \<open>\<open>writeOk\<close> tells whether \<open>localStorage.setItem\<close> returns (a throw is caught and dropped).\<close>

definition saveDB :: "bool \<Rightarrow> ScoreEntry list \<Rightarrow> stored \<Rightarrow> stored" where
  "saveDB writeOk data store = (if writeOk then Holds data else store)"

text \<open>\<open>Array.prototype.sort\<close> with \<open>(a, b) => b.score - a.score\<close>: stable, descending by score.\<close>

definition sortByScore :: "ScoreEntry list \<Rightarrow> ScoreEntry list" where
  "sortByScore xs = sort_key (\<lambda>e. - entryScore e) xs"

definition getAll :: "stored \<Rightarrow> ScoreEntry list" where
  "getAll store = sortByScore (getDB store)"

text \<open>
  A string is the list of its code units. \<open>String.prototype.toUpperCase\<close> belongs to
  the JavaScript engine, not to the sources: it maps letters of every script and may
  change the length of a string. It is the parameter \<open>toUpperCase\<close> of the model.
  \<open>cap\<close> is \<open>MAX_LEADERBOARD_ENTRIES\<close> of the constants file, \<open>newId\<close> the value of
  \<open>crypto.randomUUID()\<close> and \<open>now\<close> that of \<open>new Date().toISOString()\<close>. The result
  of \<open>addScore\<close> is the returned list and the store after \<open>saveDB\<close>.
\<close>

definition newEntry ::
  "(string \<Rightarrow> string) \<Rightarrow> string \<Rightarrow> string \<Rightarrow> string \<Rightarrow> int \<Rightarrow> ScoreEntry" where
  "newEntry toUpperCase newId now name sc =
     \<lparr> entryId = newId,
       entryName = (let n = take 10 (toUpperCase name) in if n = [] then ''PILOTO'' else n),
       entryScore = sc,
       entryDate = now \<rparr>"

definition addScore ::
  "(string \<Rightarrow> string) \<Rightarrow> nat \<Rightarrow> string \<Rightarrow> string \<Rightarrow> bool \<Rightarrow> string \<Rightarrow> int \<Rightarrow> stored \<Rightarrow>
     ScoreEntry list \<times> stored" where
  "addScore toUpperCase cap newId now writeOk name sc store =
     (let db = getDB store;
          db' = db @ [newEntry toUpperCase newId now name sc];
          updated = take cap (sortByScore db')
      in (updated, saveDB writeOk updated store))"

section \<open>Notions used to state the properties\<close>

text \<open>
  The perspective of an object and the road width at a perspective, written as the
  specification words them: the normalised depth, and the linear interpolation between
  the top and the bottom road width.
\<close>

definition specPerspective :: "config \<Rightarrow> RoadObject \<Rightarrow> real \<Rightarrow> real" where
  "specPerspective cfg obj h = (objY obj - h) / (gameHeight cfg - h)"

definition specRoadWidth :: "config \<Rightarrow> real \<Rightarrow> real" where
  "specRoadWidth cfg p =
     (1 - p) * (gameWidth cfg * TRACK_TOP_WIDTH_RATIO cfg) +
     p * (gameWidth cfg * TRACK_BOTTOM_WIDTH_RATIO cfg)"

text \<open>The coins of a list that pass the test of the coin loop, and those that do not.\<close>

definition collected :: "config \<Rightarrow> SimState \<Rightarrow> PlayerBox \<Rightarrow> real \<Rightarrow> RoadObject list \<Rightarrow> RoadObject list" where
  "collected cfg s player h cs = filter (coinHit cfg s player h) cs"

definition retained :: "config \<Rightarrow> SimState \<Rightarrow> PlayerBox \<Rightarrow> real \<Rightarrow> RoadObject list \<Rightarrow> RoadObject list" where
  "retained cfg s player h cs = filter (\<lambda>c. \<not> coinHit cfg s player h c) cs"

text \<open>
  The tick detects an obstacle overlap; the state after the coin pass; the state at the
  end of a tick that detects none, before the score accrues.
\<close>

definition collides :: "config \<Rightarrow> rnd \<Rightarrow> SimState \<Rightarrow> bool" where
  "collides cfg r s =
     (let (player, s6) = beforeCollisions cfg r s
      in \<exists>obs \<in> set (obstacles s6). obstacleHit cfg s6 player (horizonY s) obs)"

definition coinPass :: "config \<Rightarrow> PlayerBox \<Rightarrow> real \<Rightarrow> SimState \<Rightarrow> SimState" where
  "coinPass cfg player h s =
     s \<lparr> coins := coins s + int (length (collected cfg s player h (coinsList s))),
         score := score s + 50 * real (length (collected cfg s player h (coinsList s))),
         coinsList := retained cfg s player h (coinsList s) \<rparr>"

definition finishTick :: "config \<Rightarrow> rnd \<Rightarrow> SimState \<Rightarrow> SimState" where
  "finishTick cfg r s =
     updateCurve r (moveCar (coinPass cfg (fst (beforeCollisions cfg r s)) (horizonY s)
        (snd (beforeCollisions cfg r s))))"

fun isScoreUpdate :: "callback \<Rightarrow> bool" where
  "isScoreUpdate (OnScoreUpdate sc c) = True"
| "isScoreUpdate (OnGameOver sc c) = False"

text \<open>The invariant of the curve: a direction of 1 or -1, a curvature inside (-200, 200).\<close>

definition dirOk :: "SimState \<Rightarrow> bool" where
  "dirOk s = (curveDirection s = 1 \<or> curveDirection s = -1)"

definition curveOk :: "SimState \<Rightarrow> bool" where
  "curveOk s = (dirOk s \<and> \<bar>roadCurvature s\<bar> < 200)"

text \<open>
  A tick whose random values spawn nothing, and the reports that \<open>n\<close> such ticks in a
  row fire when they start from score \<open>sc\<close> with no obstacle and no coin on the road.
\<close>

definition quiet :: "rnd \<Rightarrow> bool" where
  "quiet r = (\<not> rObstacle r < 0.02 \<and> \<not> rCoin r < 0.03)"

fun quietReports :: "real \<Rightarrow> int \<Rightarrow> nat \<Rightarrow> callback list" where
  "quietReports sc c 0 = []"
| "quietReports sc c (Suc n) =
     (if \<lfloor>sc + 0.5\<rfloor> mod 10 = 0 then [OnScoreUpdate \<lfloor>sc + 0.5\<rfloor> c] else []) @
     quietReports (sc + 0.5) c n"

text \<open>Two states hold the same curve timer, curve direction, key map and touch origin.\<close>

definition sameInputState :: "SimState \<Rightarrow> SimState \<Rightarrow> bool" where
  "sameInputState s t =
     (curveDirection s = curveDirection t \<and> curveTimer s = curveTimer t \<and>
      keys s = keys t \<and> touchX s = touchX t)"

text \<open>
  The number of stored entries that rank ahead of a new entry of score \<open>sc\<close>: those with
  a score of at least \<open>sc\<close> (the sort is stable and the new entry is pushed last).
\<close>

definition ahead :: "int \<Rightarrow> ScoreEntry list \<Rightarrow> nat" where
  "ahead sc db = length (filter (\<lambda>x. sc \<le> entryScore x) db)"

section \<open>Example inputs\<close>

text \<open>
  An 800 by 600 viewport, an object half way down the road, the random values of a fresh
  session and of two ticks that spawn nothing.
\<close>

definition cfg0 :: config where
  "cfg0 = \<lparr> gameWidth = 800, gameHeight = 600, TRACK_TOP_WIDTH_RATIO = 0.1,
            TRACK_BOTTOM_WIDTH_RATIO = 0.9, ROAD_SPEED_BASE = 10 \<rparr>"

definition obj0 :: RoadObject where
  "obj0 = \<lparr> objX = 1, objY = 420, initialWidth = 80, initialHeight = 40,
            color = ''#2563eb'', objType = Obstacle \<rparr>"

definition rs0 :: "nat \<Rightarrow> real" where
  "rs0 k = 1 / 2"

definition rnd0 :: rnd where
  "rnd0 = \<lparr> rObstacle = 0.5, rObstacleLane = 0.5, rObstacleColor = 0.5, rCoin = 0.5,
             rCoinLane = 0.5, rCurveTimer = 0.25, rCurveDir = 0.75 \<rparr>"

definition rnd1 :: rnd where
  "rnd1 = rnd0 \<lparr> rCurveDir := 0.25 \<rparr>"

text \<open>
  The state at the start of the first session; the same with one obstacle right in front
  of the player, and an engine about to run a frame on it; the same with four coins on the
  road, two of them side by side at the player, whose box is \<open>player0\<close>.
\<close>

definition fresh0 :: SimState where
  "fresh0 = initGame cfg0 rs0 initialRef"

definition hit0 :: SimState where
  "hit0 = fresh0 \<lparr> obstacles :=
            [\<lparr> objX = 0, objY = 510, initialWidth = 80, initialHeight = 40,
               color = ''#2563eb'', objType = Obstacle \<rparr>],
          score := 7.5, coins := 3 \<rparr>"

definition eHit0 :: engine where
  "eHit0 = \<lparr> st = hit0, pending = True, fired = [OnScoreUpdate 0 0] \<rparr>"

definition farCoin :: RoadObject where
  "farCoin = \<lparr> objX = 0, objY = 300, initialWidth = 40, initialHeight = 40,
               color = ''gold'', objType = Coin \<rparr>"

definition nearCoin :: RoadObject where
  "nearCoin = \<lparr> objX = 0, objY = 520, initialWidth = 40, initialHeight = 40,
                color = ''gold'', objType = Coin \<rparr>"

definition nearCoin2 :: RoadObject where
  "nearCoin2 = \<lparr> objX = 1 / 4, objY = 520, initialWidth = 40, initialHeight = 40,
                 color = ''gold'', objType = Coin \<rparr>"

definition farCoin2 :: RoadObject where
  "farCoin2 = \<lparr> objX = 1, objY = 300, initialWidth = 40, initialHeight = 40,
                color = ''gold'', objType = Coin \<rparr>"

definition coins0 :: SimState where
  "coins0 = fresh0 \<lparr> coinsList := [farCoin, nearCoin, nearCoin2, farCoin2] \<rparr>"

definition player0 :: PlayerBox where
  "player0 = \<lparr> boxX = 400, boxY = 520, boxWidth = 100, boxHeight = 45 \<rparr>"

text \<open>
  The state that a first session leaves behind after one tick, a press of the key
  \<open>a\<close> and the start of a touch.
\<close>

definition prior0 :: SimState where
  "prior0 = st (session cfg0 rs0 initialRef [Frame rnd1, KeyDown ''a'', TouchStart 100])"

text \<open>
  A viewport on which the road moves by 320 a tick, and a tick that spawns an obstacle in
  the middle of the road: the obstacle is at the player one tick later.
\<close>

definition cfgFast :: config where
  "cfgFast = cfg0 \<lparr> ROAD_SPEED_BASE := 320 \<rparr>"

definition rndSpawn :: rnd where
  "rndSpawn = rnd0 \<lparr> rObstacle := 0.01 \<rparr>"

text \<open>The state of that session after its first tick, the one that spawns the obstacle.\<close>

definition afterSpawn :: SimState where
  "afterSpawn = st (session cfgFast rs0 initialRef [Frame rndSpawn])"

text \<open>
  What \<open>toUpperCase\<close> does on strings of ASCII characters, for the examples: the letters
  a to z go to A to Z, every other character stays.
\<close>

definition upperAscii :: "string \<Rightarrow> string" where
  "upperAscii str =
     map (\<lambda>c. case map_of (zip ''abcdefghijklmnopqrstuvwxyz'' ''ABCDEFGHIJKLMNOPQRSTUVWXYZ'') c of
                None \<Rightarrow> c
              | Some u \<Rightarrow> u) str"

text \<open>A leaderboard of three entries, stored out of order.\<close>

definition entryA :: ScoreEntry where
  "entryA = \<lparr> entryId = ''id1'', entryName = ''ANA'', entryScore = 30, entryDate = ''d1'' \<rparr>"

definition entryB :: ScoreEntry where
  "entryB = \<lparr> entryId = ''id2'', entryName = ''BIA'', entryScore = 50, entryDate = ''d2'' \<rparr>"

definition entryC :: ScoreEntry where
  "entryC = \<lparr> entryId = ''id3'', entryName = ''CAIO'', entryScore = 40, entryDate = ''d3'' \<rparr>"

definition store0 :: stored where
  "store0 = Holds [entryA, entryB, entryC]"

section \<open>Projection\<close>

lemma getProjection_persp:
  "getProjection cfg s obj h =
     (if specPerspective cfg obj h < 0 \<or> specPerspective cfg obj h > 1.2 then None
      else Some \<lparr> projX = (gameWidth cfg / 2) +
                    (((gameWidth cfg * TRACK_TOP_WIDTH_RATIO cfg) +
                      (gameWidth cfg * (TRACK_BOTTOM_WIDTH_RATIO cfg - TRACK_TOP_WIDTH_RATIO cfg) *
                         specPerspective cfg obj h)) * objX obj * 0.25) +
                    roadCurvature s * (1 - specPerspective cfg obj h),
                  projY = objY obj,
                  projWidth = initialWidth obj * specPerspective cfg obj h,
                  projHeight = initialHeight obj * specPerspective cfg obj h,
                  zIndex = specPerspective cfg obj h \<rparr>)"
  unfolding getProjection_def specPerspective_def Let_def by (rule refl)

lemma specRoadWidth_source:
  "(gameWidth cfg * TRACK_TOP_WIDTH_RATIO cfg) +
     (gameWidth cfg * (TRACK_BOTTOM_WIDTH_RATIO cfg - TRACK_TOP_WIDTH_RATIO cfg) * p) = specRoadWidth cfg p"
  by (simp add: specRoadWidth_def algebra_simps)

text \<open>
  C2. Where the viewport reaches below the horizon line (\<open>gameHeight \<noteq> h\<close>, so that the
  quotient is a number), \<open>getProjection\<close> returns no projection exactly when the
  perspective \<open>(y - h) / (gameHeight - h)\<close> is below 0 or above 1.2; otherwise the
  projected width and height are the base width and height times the perspective, and the
  screen x is the viewport centre, plus the linearly interpolated road width times the
  lane coordinate times 0.25, plus the curvature times (1 - perspective).
\<close>

theorem getProjection_spec:
  assumes "gameHeight cfg \<noteq> h"
  shows "(getProjection cfg s obj h = None \<longleftrightarrow>
            specPerspective cfg obj h < 0 \<or> specPerspective cfg obj h > 1.2) \<and>
         (\<not> (specPerspective cfg obj h < 0 \<or> specPerspective cfg obj h > 1.2) \<longrightarrow>
            getProjection cfg s obj h =
              Some \<lparr> projX = gameWidth cfg / 2 +
                              specRoadWidth cfg (specPerspective cfg obj h) * objX obj * 0.25 +
                              roadCurvature s * (1 - specPerspective cfg obj h),
                     projY = objY obj,
                     projWidth = initialWidth obj * specPerspective cfg obj h,
                     projHeight = initialHeight obj * specPerspective cfg obj h,
                     zIndex = specPerspective cfg obj h \<rparr>)"
  by (simp add: getProjection_persp specRoadWidth_source)

theorem getProjection_spec_witness:
  "gameHeight cfg0 \<noteq> 240 \<and> specPerspective cfg0 obj0 240 = 1/2 \<and>
   getProjection cfg0 (initialRef \<lparr> roadCurvature := 100 \<rparr>) obj0 240 =
     Some \<lparr> projX = 550, projY = 420, projWidth = 40, projHeight = 20, zIndex = 1/2 \<rparr> \<and>
   getProjection cfg0 initialRef (obj0 \<lparr> objY := 700 \<rparr>) 240 = None"
proof -
  have h: "gameHeight cfg0 \<noteq> 240" by (simp add: cfg0_def)
  have p: "specPerspective cfg0 obj0 240 = 1/2" by (simp add: specPerspective_def cfg0_def obj0_def)
  have p2: "specPerspective cfg0 (obj0 \<lparr> objY := 700 \<rparr>) 240 > 1.2" by (simp add: specPerspective_def cfg0_def obj0_def)
  show ?thesis
    using getProjection_spec [OF h, of "initialRef \<lparr> roadCurvature := 100 \<rparr>" obj0]
          getProjection_spec [OF h, of initialRef "obj0 \<lparr> objY := 700 \<rparr>"] h
    by (simp add: specPerspective_def specRoadWidth_def cfg0_def obj0_def)
qed

section \<open>The coin loop\<close>

lemma getProjection_cong:
  "roadCurvature s' = roadCurvature s \<Longrightarrow> getProjection cfg s' obj h = getProjection cfg s obj h"
  by (simp add: getProjection_def Let_def)

lemma coinHit_cong:
  "roadCurvature s' = roadCurvature s \<Longrightarrow> coinHit cfg s' player h c = coinHit cfg s player h c"
  using getProjection_cong [of s' s cfg c h] by (simp add: coinHit_def)

lemma coinLoop_result:
  "n \<le> length (coinsList s) \<Longrightarrow>
   coinLoop cfg player h n s =
     Inr (s \<lparr> coins := coins s + int (length (collected cfg s player h (take n (coinsList s)))),
              score := score s + 50 * real (length (collected cfg s player h (take n (coinsList s)))),
              coinsList := retained cfg s player h (take n (coinsList s)) @ drop n (coinsList s) \<rparr>)"
proof (induction n arbitrary: s)
  case 0
  then show ?case by (simp add: collected_def retained_def)
next
  case (Suc i)
  then have i: "i < length (coinsList s)" by simp
  let ?xs = "coinsList s"
  have tk: "take (Suc i) ?xs = take i ?xs @ [?xs ! i]"
    using i by (simp add: take_Suc_conv_app_nth)
  show ?case
  proof (cases "coinHit cfg s player h (?xs ! i)")
    case True
    let ?s1 = "s \<lparr> coins := coins s + 1, score := score s + 50, coinsList := splice1 i ?xs \<rparr>"
    have len: "i \<le> length (coinsList ?s1)" using i by (simp add: splice1_def)
    have hit: "coinHit cfg ?s1 player h = coinHit cfg s player h"
      by (rule ext) (rule coinHit_cong, simp)
    have t1: "take i (splice1 i ?xs) = take i ?xs" using i by (simp add: splice1_def)
    have d1: "drop i (splice1 i ?xs) = drop (Suc i) ?xs" using i by (simp add: splice1_def)
    have "coinLoop cfg player h (Suc i) s = coinLoop cfg player h i ?s1"
      using i True by simp
    also have "\<dots> = Inr (?s1 \<lparr> coins := coins ?s1 + int (length (collected cfg ?s1 player h (take i (coinsList ?s1)))),
              score := score ?s1 + 50 * real (length (collected cfg ?s1 player h (take i (coinsList ?s1)))),
              coinsList := retained cfg ?s1 player h (take i (coinsList ?s1)) @ drop i (coinsList ?s1) \<rparr>)"
      by (rule Suc.IH [OF len])
    finally have fin: "coinLoop cfg player h (Suc i) s = Inr (?s1 \<lparr> coins := coins ?s1 + int (length (collected cfg ?s1 player h (take i (coinsList ?s1)))),
              score := score ?s1 + 50 * real (length (collected cfg ?s1 player h (take i (coinsList ?s1)))),
              coinsList := retained cfg ?s1 player h (take i (coinsList ?s1)) @ drop i (coinsList ?s1) \<rparr>)" .
    show ?thesis
      unfolding fin using True by (simp add: t1 d1 tk collected_def retained_def hit add.assoc)
  next
    case False
    have "coinLoop cfg player h (Suc i) s = coinLoop cfg player h i s"
      using i False by simp
    also have "\<dots> = Inr (s \<lparr> coins := coins s + int (length (collected cfg s player h (take i ?xs))),
              score := score s + 50 * real (length (collected cfg s player h (take i ?xs))),
              coinsList := retained cfg s player h (take i ?xs) @ drop i ?xs \<rparr>)"
      using i by (intro Suc.IH) simp
    finally have fin: "coinLoop cfg player h (Suc i) s = Inr (s \<lparr> coins := coins s + int (length (collected cfg s player h (take i ?xs))),
              score := score s + 50 * real (length (collected cfg s player h (take i ?xs))),
              coinsList := retained cfg s player h (take i ?xs) @ drop i ?xs \<rparr>)" .
    show ?thesis
      unfolding fin using False i by (simp add: tk collected_def retained_def Cons_nth_drop_Suc)
  qed
qed

lemma fresh0_fields:
  "obstacles fresh0 = []" "coinsList fresh0 = []" "roadCurvature fresh0 = 0" "curveTimer fresh0 = 0"
  "curveDirection fresh0 = 1" "score fresh0 = 0" "coins fresh0 = 0" "horizonY fresh0 = 240" "speed fresh0 = 10"
  "carX fresh0 = 0"
  by (simp_all add: fresh0_def initGame_def initialRef_def cfg0_def Let_def)

lemma coins0_hits:
  "\<not> coinHit cfg0 coins0 player0 240 farCoin"
  "coinHit cfg0 coins0 player0 240 nearCoin"
  "coinHit cfg0 coins0 player0 240 nearCoin2"
  "\<not> coinHit cfg0 coins0 player0 240 farCoin2"
  by (simp_all add: coinHit_def getProjection_def cfg0_def coins0_def player0_def farCoin_def
        nearCoin_def nearCoin2_def farCoin2_def fresh0_fields Let_def)

lemma coinHit_iff:
  "coinHit cfg s player h coin \<longleftrightarrow>
     (\<exists>proj. getProjection cfg s coin h = Some proj \<and>
        boxY player - 30 < projY proj \<and> projY proj < boxY player + 30 \<and>
        projX proj - projWidth proj / 2 < boxX player + boxWidth player / 2 \<and>
        boxX player - boxWidth player / 2 < projX proj + projWidth proj / 2)"
  by (auto simp: coinHit_def Let_def split: option.splits)

text \<open>
  C3. The coin pass of one tick never reads beyond the list, and it returns the state in
  which exactly the coins that pass the test are gone from \<open>coinsList\<close>, the others left
  in their order, the coin count raised by 1 and the score by 50 for each coin taken.
  Nothing else of the state changes. A coin passes the test when it has a projection whose
  y lies within 30 of the y of the player and whose horizontal extent overlaps that of the
  unpadded box of the player.
\<close>

theorem checkCoinCollisions_resolves:
  "checkCoinCollisions cfg player h s =
     Inr (s \<lparr> coins := coins s + int (length (collected cfg s player h (coinsList s))),
              score := score s + 50 * real (length (collected cfg s player h (coinsList s))),
              coinsList := retained cfg s player h (coinsList s) \<rparr>) \<and>
   (coinHit cfg s player h coin \<longleftrightarrow>
     (\<exists>proj. getProjection cfg s coin h = Some proj \<and>
        boxY player - 30 < projY proj \<and> projY proj < boxY player + 30 \<and>
        projX proj - projWidth proj / 2 < boxX player + boxWidth player / 2 \<and>
        boxX player - boxWidth player / 2 < projX proj + projWidth proj / 2))"
  using coinHit_iff by (simp add: checkCoinCollisions_def coinLoop_result)

theorem checkCoinCollisions_resolves_witness:
  "checkCoinCollisions cfg0 player0 240 coins0 =
     Inr (coins0 \<lparr> coins := 2, score := 100, coinsList := [farCoin, farCoin2] \<rparr>)"
proof -
  have c: "coinsList coins0 = [farCoin, nearCoin, nearCoin2, farCoin2]"
    "coins coins0 = 0" "score coins0 = 0"
    by (simp_all add: coins0_def fresh0_fields)
  show ?thesis
    using checkCoinCollisions_resolves [of cfg0 player0 240 coins0 nearCoin, THEN conjunct1]
    by (simp add: c collected_def retained_def coins0_hits)
qed

section \<open>The tick, stage by stage\<close>

lemma checkCoinCollisions_eq:
  "checkCoinCollisions cfg player h s = Inr (coinPass cfg player h s)"
  by (simp add: checkCoinCollisions_def coinLoop_result coinPass_def)

lemma checkEnemyCollisions_iff:
  "checkEnemyCollisions cfg s player h xs = (\<exists>obs \<in> set xs. obstacleHit cfg s player h obs)"
  by (induction xs) auto

lemma beforeCollisions_fields:
  "score (snd (beforeCollisions cfg r s)) = score s"
  "coins (snd (beforeCollisions cfg r s)) = coins s"
  "roadCurvature (snd (beforeCollisions cfg r s)) = roadCurvature s"
  "curveTimer (snd (beforeCollisions cfg r s)) = curveTimer s"
  "curveDirection (snd (beforeCollisions cfg r s)) = curveDirection s"
  "keys (snd (beforeCollisions cfg r s)) = keys s"
  "touchX (snd (beforeCollisions cfg r s)) = touchX s"
  "horizonY (snd (beforeCollisions cfg r s)) = horizonY s"
  "speed (snd (beforeCollisions cfg r s)) = speed s"
  "carX (snd (beforeCollisions cfg r s)) = max (-1.8) (min 1.8 (carX s))"
  by (simp_all add: beforeCollisions_def drawPlayer_def updateObjects_def spawnObstacle_def
        spawnCoin_def cleanup_def Let_def split_def)

lemma beforeCollisions_scenery:
  "scenery (snd (beforeCollisions cfg r s)) =
     map (recycle cfg (horizonY s)) (map (advance (speed s)) (scenery s))"
  by (simp add: beforeCollisions_def drawPlayer_def updateObjects_def spawnObstacle_def
        spawnCoin_def cleanup_def Let_def split_def)

lemma beforeCollisions_coinsList:
  "coinsList (snd (beforeCollisions cfg r s)) =
     filter (\<lambda>ob. objY ob < gameHeight cfg + 100)
       (coinsList (spawnCoin r (horizonY s) (updateObjects s)))"
  by (simp add: beforeCollisions_def drawPlayer_def updateObjects_def spawnObstacle_def
        spawnCoin_def cleanup_def Let_def split_def)

lemma beforeCollisions_player:
  "fst (beforeCollisions cfg r s) = fst (drawPlayer cfg s)"
  by (simp add: beforeCollisions_def drawPlayer_def updateObjects_def Let_def split_def)

lemma render_collides:
  "collides cfg r s \<Longrightarrow>
   render cfg r s =
     Inr (snd (beforeCollisions cfg r s), [OnGameOver \<lfloor>score s\<rfloor> (coins s)], False)"
  by (simp add: render_def collides_def checkEnemyCollisions_iff split_def Let_def
        beforeCollisions_fields)

lemma render_continues:
  "\<not> collides cfg r s \<Longrightarrow>
   render cfg r s =
     Inr (fst (updateScore (finishTick cfg r s)), snd (updateScore (finishTick cfg r s)), True)"
  by (simp add: render_def collides_def checkEnemyCollisions_iff split_def Let_def
        checkCoinCollisions_eq finishTick_def)

lemma coinPass_fields:
  "roadCurvature (coinPass cfg p h s) = roadCurvature s"
  "curveTimer (coinPass cfg p h s) = curveTimer s"
  "curveDirection (coinPass cfg p h s) = curveDirection s"
  "keys (coinPass cfg p h s) = keys s"
  "touchX (coinPass cfg p h s) = touchX s"
  "horizonY (coinPass cfg p h s) = horizonY s"
  "speed (coinPass cfg p h s) = speed s"
  "carX (coinPass cfg p h s) = carX s"
  "scenery (coinPass cfg p h s) = scenery s"
  "obstacles (coinPass cfg p h s) = obstacles s"
  "roadLines (coinPass cfg p h s) = roadLines s"
  by (simp_all add: coinPass_def)

lemma moveCar_fields:
  "roadCurvature (moveCar s) = roadCurvature s"
  "curveTimer (moveCar s) = curveTimer s"
  "curveDirection (moveCar s) = curveDirection s"
  "keys (moveCar s) = keys s"
  "touchX (moveCar s) = touchX s"
  "horizonY (moveCar s) = horizonY s"
  "speed (moveCar s) = speed s"
  "score (moveCar s) = score s"
  "coins (moveCar s) = coins s"
  "scenery (moveCar s) = scenery s"
  "obstacles (moveCar s) = obstacles s"
  "coinsList (moveCar s) = coinsList s"
  "roadLines (moveCar s) = roadLines s"
  by (simp_all add: moveCar_def Let_def)

lemma updateCurve_fields:
  "keys (updateCurve r s) = keys s"
  "touchX (updateCurve r s) = touchX s"
  "horizonY (updateCurve r s) = horizonY s"
  "speed (updateCurve r s) = speed s"
  "score (updateCurve r s) = score s"
  "coins (updateCurve r s) = coins s"
  "scenery (updateCurve r s) = scenery s"
  "obstacles (updateCurve r s) = obstacles s"
  "coinsList (updateCurve r s) = coinsList s"
  "roadLines (updateCurve r s) = roadLines s"
  by (simp_all add: updateCurve_def Let_def)

lemma updateCurve_curvature:
  "roadCurvature (updateCurve r s) =
     roadCurvature s + (curveDirection (updateCurve r s) * 200 - roadCurvature s) * 0.01"
  by (simp add: updateCurve_def Let_def)

lemma updateCurve_direction:
  "curveDirection (updateCurve r s) =
     (if curveTimer s - 1 \<le> 0 then (if rCurveDir r > 0.5 then 1 else -1) else curveDirection s)"
  by (simp add: updateCurve_def Let_def)

lemma updateScore_fields:
  "roadCurvature (fst (updateScore s)) = roadCurvature s"
  "curveTimer (fst (updateScore s)) = curveTimer s"
  "curveDirection (fst (updateScore s)) = curveDirection s"
  "keys (fst (updateScore s)) = keys s"
  "touchX (fst (updateScore s)) = touchX s"
  "horizonY (fst (updateScore s)) = horizonY s"
  "speed (fst (updateScore s)) = speed s"
  "carX (fst (updateScore s)) = carX s"
  "coins (fst (updateScore s)) = coins s"
  "scenery (fst (updateScore s)) = scenery s"
  "obstacles (fst (updateScore s)) = obstacles s"
  "coinsList (fst (updateScore s)) = coinsList s"
  "roadLines (fst (updateScore s)) = roadLines s"
  "score (fst (updateScore s)) = score s + 0.5"
  by (simp_all add: updateScore_def Let_def)

lemma updateScore_fired:
  "snd (updateScore s) =
     (if \<lfloor>score (fst (updateScore s))\<rfloor> mod 10 = 0
      then [OnScoreUpdate \<lfloor>score (fst (updateScore s))\<rfloor> (coins (fst (updateScore s)))] else [])"
  by (simp add: updateScore_def Let_def)

lemma render_result:
  "render cfg r s =
     (if collides cfg r s
      then Inr (snd (beforeCollisions cfg r s), [OnGameOver \<lfloor>score s\<rfloor> (coins s)], False)
      else Inr (fst (updateScore (finishTick cfg r s)), snd (updateScore (finishTick cfg r s)), True))"
  by (simp add: render_collides render_continues)

lemma finishTick_curvature:
  "roadCurvature (finishTick cfg r s) =
     roadCurvature s + (curveDirection (finishTick cfg r s) * 200 - roadCurvature s) * 0.01"
  by (simp add: finishTick_def updateCurve_curvature [of r "moveCar _"] moveCar_fields
        coinPass_fields beforeCollisions_fields)

lemma finishTick_direction:
  "curveDirection (finishTick cfg r s) =
     (if curveTimer s - 1 \<le> 0 then (if rCurveDir r > 0.5 then 1 else -1) else curveDirection s)"
  by (simp add: finishTick_def updateCurve_direction moveCar_fields
        coinPass_fields beforeCollisions_fields)

lemma finishTick_scenery:
  "scenery (finishTick cfg r s) = map (recycle cfg (horizonY s)) (map (advance (speed s)) (scenery s))"
  by (simp add: finishTick_def updateCurve_fields moveCar_fields coinPass_fields
        beforeCollisions_scenery)

lemma beforeCollisions_obstacles:
  "obstacles (snd (beforeCollisions cfg r s)) =
     filter (\<lambda>ob. objY ob < gameHeight cfg + 100)
       (obstacles (spawnObstacle r (horizonY s) (updateObjects s)))"
  by (simp add: beforeCollisions_def drawPlayer_def updateObjects_def spawnObstacle_def
        spawnCoin_def cleanup_def Let_def split_def)

lemma finishTick_obstacles:
  "obstacles (finishTick cfg r s) = obstacles (snd (beforeCollisions cfg r s))"
  by (simp add: finishTick_def updateCurve_fields moveCar_fields coinPass_fields)

lemma finishTick_carX:
  "carX (finishTick cfg r s) =
     carX (moveCar (snd (beforeCollisions cfg r s))) - roadCurvature (finishTick cfg r s) * 0.0001"
  by (simp add: finishTick_def updateCurve_def moveCar_def coinPass_def Let_def)

lemma not_collides_fresh0: "\<not> collides cfg0 rnd0 fresh0"
  by (simp add: collides_def beforeCollisions_def drawPlayer_def updateObjects_def spawnObstacle_def
        spawnCoin_def cleanup_def Let_def split_def fresh0_fields rnd0_def)

lemma collides_hit0: "collides cfg0 rnd0 hit0"
  by (simp add: collides_def beforeCollisions_def drawPlayer_def updateObjects_def spawnObstacle_def
        spawnCoin_def cleanup_def Let_def split_def fresh0_fields rnd0_def hit0_def advance_def
        obstacleHit_def getProjection_def cfg0_def hitBoxPadding_def)

section \<open>The curvature stays inside the amplitude\<close>

lemma ease_bound:
  fixes c d :: real
  assumes "d = 1 \<or> d = -1" and "\<bar>c\<bar> < 200"
  shows "\<bar>c + (d * 200 - c) * 0.01\<bar> < 200"
proof -
  from assms(2) have "- 200 < c" and "c < 200" by (simp_all add: abs_less_iff)
  with assms(1) show ?thesis
    unfolding abs_less_iff by (elim disjE; simp add: diff_divide_distrib; linarith)
qed

lemma finishTick_curveOk:
  assumes "curveOk s"
  shows "curveOk (finishTick cfg r s)"
proof -
  have d: "dirOk (finishTick cfg r s)"
    using assms by (simp add: curveOk_def dirOk_def finishTick_direction)
  have "\<bar>roadCurvature s + (curveDirection (finishTick cfg r s) * 200 - roadCurvature s) * 0.01\<bar> < 200"
    using d assms by (intro ease_bound) (simp_all add: curveOk_def dirOk_def)
  then have "\<bar>roadCurvature (finishTick cfg r s)\<bar> < 200"
    by (simp only: finishTick_curvature [symmetric])
  then show ?thesis
    using d by (simp add: curveOk_def)
qed

lemma render_curveOk:
  assumes "curveOk s" and "render cfg r s = Inr (s', cbs, again)"
  shows "curveOk s'"
proof (cases "collides cfg r s")
  case True
  then have "s' = snd (beforeCollisions cfg r s)"
    using assms(2) by (simp add: render_result)
  then show ?thesis
    using assms(1) by (simp add: curveOk_def dirOk_def beforeCollisions_fields)
next
  case False
  then have "s' = fst (updateScore (finishTick cfg r s))"
    using assms(2) by (simp add: render_result)
  then show ?thesis
    using finishTick_curveOk [OF assms(1), of cfg r]
    by (simp add: curveOk_def dirOk_def updateScore_fields)
qed

lemma render_Inr:
  "\<exists>s' cbs again. render cfg r s = Inr (s', cbs, again)"
  by (cases "collides cfg r s") (auto simp: render_result)

lemma step_curveOk:
  assumes "curveOk (st e)"
  shows "curveOk (st (step cfg e ev))"
proof (cases ev)
  case (Frame r)
  obtain s' cbs again where rr: "render cfg r (st e) = Inr (s', cbs, again)"
    using render_Inr by blast
  then have "curveOk s'" using assms render_curveOk by blast
  then show ?thesis using Frame rr assms by simp
next
  case (TouchMove x)
  then show ?thesis
    using assms by (simp add: handleTouchMove_def curveOk_def dirOk_def Let_def split: option.splits)
qed (use assms in \<open>simp_all add: handleKeyDown_def handleKeyUp_def handleTouchStart_def
       handleTouchEnd_def curveOk_def dirOk_def\<close>)

lemma foldl_step_curveOk:
  "curveOk (st e) \<Longrightarrow> curveOk (st (foldl (step cfg) e evs))"
  by (induction evs arbitrary: e) (simp_all add: step_curveOk)

lemma initGame_curveOk:
  "dirOk s \<Longrightarrow> curveOk (initGame cfg rs s)"
  by (simp add: initGame_def curveOk_def dirOk_def Let_def)

lemma session_curveOk:
  "dirOk s0 \<Longrightarrow> curveOk (st (session cfg rs s0 evs))"
  by (simp add: session_def startSession_def foldl_step_curveOk initGame_curveOk)

lemma foldl_sessions_dirOk:
  "dirOk s \<Longrightarrow> dirOk (foldl (\<lambda>s (cfg, rs, evs). st (session cfg rs s evs)) s ss)"
proof (induction ss arbitrary: s)
  case Nil
  then show ?case by simp
next
  case (Cons a ss)
  obtain cfg rs evs where a: "a = (cfg, rs, evs)" by (cases a) auto
  have "dirOk (st (session cfg rs s evs))"
    using session_curveOk [OF Cons.prems] by (simp add: curveOk_def)
  then show ?case using Cons.IH a by simp
qed

lemma lifetime_dirOk: "dirOk (lifetime ss)"
  unfolding lifetime_def by (rule foldl_sessions_dirOk) (simp add: dirOk_def initialRef_def)

text \<open>
  C10. In every session of the mounted component (the state reference starts as
  \<open>initialRef\<close> and is handed from session to session), after any sequence of frames,
  key events and touch events, the road curvature is strictly between -200 and 200.
  The arithmetic is that of the reals.
\<close>

theorem curvature_below_amplitude:
  "\<bar>roadCurvature (st (session cfg rs (lifetime ss) evs))\<bar> < 200"
  using session_curveOk [OF lifetime_dirOk] by (simp add: curveOk_def)

section \<open>The clamp of the lateral position\<close>


section \<open>The scenery list\<close>

lemma render_scenery:
  "\<exists>s' cbs again. render cfg r s = Inr (s', cbs, again) \<and>
     scenery s' = map (recycle cfg (horizonY s)) (map (advance (speed s)) (scenery s))"
  by (cases "collides cfg r s")
     (auto simp: render_result beforeCollisions_scenery updateScore_fields finishTick_scenery)

lemma step_scenery_length:
  "length (scenery (st (step cfg e ev))) = length (scenery (st e))"
proof (cases ev)
  case (Frame r)
  obtain s' cbs again where rr: "render cfg r (st e) = Inr (s', cbs, again)"
    and sc: "scenery s' = map (recycle cfg (horizonY (st e))) (map (advance (speed (st e))) (scenery (st e)))"
    using render_scenery by blast
  then show ?thesis using Frame by simp
next
  case (TouchMove x)
  then show ?thesis
    by (simp add: handleTouchMove_def Let_def split: option.splits)
qed (simp_all add: handleKeyDown_def handleKeyUp_def handleTouchStart_def handleTouchEnd_def)

lemma foldl_step_scenery_length:
  "length (scenery (st (foldl (step cfg) e evs))) = length (scenery (st e))"
  by (induction evs arbitrary: e) (simp_all add: step_scenery_length)

lemma initGame_scenery_length: "length (scenery (initGame cfg rs s)) = 20"
  by (simp add: initGame_def Let_def length_concat comp_def sum_list_triv)

text \<open>
  C8. A tick, whether it ends the game or not, maps the scenery list object by object:
  each object moves by \<open>speed\<close> and, once beyond \<open>gameHeight + 200\<close>, is set back to
  \<open>horizonY - 200\<close>; so the length of the list is unchanged by every tick, and by every
  key and touch event. From \<open>initGame\<close> on it is 20 throughout the session.
\<close>

theorem scenery_length_invariant:
  "(\<exists>s' cbs again. render cfg r s = Inr (s', cbs, again) \<and>
      scenery s' = map (recycle cfg (horizonY s)) (map (advance (speed s)) (scenery s)) \<and>
      length (scenery s') = length (scenery s)) \<and>
   objY (recycle cfg h (advance v obj)) =
      (if objY obj + v > gameHeight cfg + 200 then h - 200 else objY obj + v) \<and>
   length (scenery (st (step cfg e ev))) = length (scenery (st e)) \<and>
   length (scenery (st (session cfg rs s0 evs))) = 20"
proof -
  have 1: "\<exists>s' cbs again. render cfg r s = Inr (s', cbs, again) \<and>
      scenery s' = map (recycle cfg (horizonY s)) (map (advance (speed s)) (scenery s)) \<and>
      length (scenery s') = length (scenery s)"
    using render_scenery [of cfg r s] by auto
  have 2: "objY (recycle cfg h (advance v obj)) =
      (if objY obj + v > gameHeight cfg + 200 then h - 200 else objY obj + v)"
    by (simp add: recycle_def advance_def)
  have 3: "length (scenery (st (session cfg rs s0 evs))) = 20"
    by (simp add: session_def startSession_def foldl_step_scenery_length initGame_scenery_length)
  show ?thesis using 1 2 3 step_scenery_length by blast
qed

section \<open>The end of the game\<close>

lemma obstacleHit_iff:
  "obstacleHit cfg s player h obs \<longleftrightarrow>
     (\<exists>proj. getProjection cfg s obs h = Some proj \<and>
        boxY player - 20 < projY proj \<and> projY proj < boxY player + 20 \<and>
        projX proj - projWidth proj / 2 < boxX player + boxWidth player / 2 - 20 \<and>
        boxX player - boxWidth player / 2 + 20 < projX proj + projWidth proj / 2)"
  by (auto simp: obstacleHit_def hitBoxPadding_def Let_def split: option.splits)

lemma collides_iff:
  "collides cfg r s \<longleftrightarrow>
     (\<exists>obs \<in> set (obstacles (snd (beforeCollisions cfg r s))).
        obstacleHit cfg (snd (beforeCollisions cfg r s)) (fst (beforeCollisions cfg r s)) (horizonY s) obs)"
  by (simp add: collides_def split_def Let_def)

lemma step_Frame:
  "step cfg e (Frame r) =
     (if pending e then
        (if collides cfg r (st e)
         then \<lparr> st = snd (beforeCollisions cfg r (st e)), pending = False,
                fired = fired e @ [OnGameOver \<lfloor>score (st e)\<rfloor> (coins (st e))] \<rparr>
         else \<lparr> st = fst (updateScore (finishTick cfg r (st e))), pending = True,
                fired = fired e @ snd (updateScore (finishTick cfg r (st e))) \<rparr>)
      else e)"
  by (simp add: render_result)

lemma updateScore_no_gameOver: "filter isGameOver (snd (updateScore s)) = []"
  by (simp add: updateScore_def Let_def)

lemma step_gameOver_count:
  assumes "length (filter isGameOver (fired e)) = (if pending e then 0 else 1)"
  shows "length (filter isGameOver (fired (step cfg e ev))) = (if pending (step cfg e ev) then 0 else 1)"
proof (cases ev)
  case (Frame r)
  show ?thesis
    using assms unfolding Frame step_Frame
    by (auto simp: updateScore_no_gameOver split: if_splits)
qed (use assms in simp_all)

lemma foldl_step_gameOver_count:
  "length (filter isGameOver (fired e)) = (if pending e then 0 else 1) \<Longrightarrow>
   length (filter isGameOver (fired (foldl (step cfg) e evs))) =
     (if pending (foldl (step cfg) e evs) then 0 else 1)"
  by (induction evs arbitrary: e) (simp_all add: step_gameOver_count)

lemma session_gameOver_count:
  "length (filter isGameOver (fired (session cfg rs s0 evs))) =
     (if pending (session cfg rs s0 evs) then 0 else 1)"
  unfolding session_def by (rule foldl_step_gameOver_count) (simp add: startSession_def)

lemma step_stopped:
  "\<not> pending e \<Longrightarrow> \<not> pending (step cfg e ev) \<and> fired (step cfg e ev) = fired e"
  by (cases ev) simp_all

lemma foldl_step_stopped:
  "\<not> pending e \<Longrightarrow>
   \<not> pending (foldl (step cfg) e evs) \<and> fired (foldl (step cfg) e evs) = fired e"
proof (induction evs arbitrary: e)
  case Nil
  then show ?case by simp
next
  case (Cons ev evs)
  have s: "\<not> pending (step cfg e ev)" "fired (step cfg e ev) = fired e"
    using step_stopped [OF Cons.prems] by simp_all
  show ?case
    using Cons.IH [OF s(1)] s(2) by simp
qed

lemma session_append:
  "session cfg rs s0 (evs1 @ ev # evs2) =
     foldl (step cfg) (step cfg (session cfg rs s0 evs1) ev) evs2"
  by (simp add: session_def)

lemma session_reaching_collision:
  assumes "pending (session cfg rs s0 evs1)"
    and "collides cfg r (st (session cfg rs s0 evs1))"
  shows "filter isGameOver (fired (session cfg rs s0 (evs1 @ Frame r # evs2))) =
           [OnGameOver \<lfloor>score (st (session cfg rs s0 evs1))\<rfloor> (coins (st (session cfg rs s0 evs1)))]"
    and "\<not> pending (session cfg rs s0 (evs1 @ Frame r # evs2))"
proof -
  let ?e = "session cfg rs s0 evs1"
  let ?e' = "step cfg ?e (Frame r)"
  have none: "filter isGameOver (fired ?e) = []"
    using session_gameOver_count [of cfg rs s0 evs1] assms(1) by simp
  have e': "\<not> pending ?e'"
    "fired ?e' = fired ?e @ [OnGameOver \<lfloor>score (st ?e)\<rfloor> (coins (st ?e))]"
    using assms by (simp_all add: step_Frame del: step.simps(1))
  have fin: "\<not> pending (foldl (step cfg) ?e' evs2)" "fired (foldl (step cfg) ?e' evs2) = fired ?e'"
    using foldl_step_stopped [OF e'(1), of cfg evs2] by simp_all
  show "filter isGameOver (fired (session cfg rs s0 (evs1 @ Frame r # evs2))) =
           [OnGameOver \<lfloor>score (st ?e)\<rfloor> (coins (st ?e))]"
    unfolding session_append fin(2) e'(2) by (simp add: none)
  show "\<not> pending (session cfg rs s0 (evs1 @ Frame r # evs2))"
    unfolding session_append by (rule fin(1))
qed

lemma step_stops_only_by_collision:
  assumes "pending e" and "\<not> pending (step cfg e ev)"
  shows "\<exists>r. ev = Frame r \<and> collides cfg r (st e)"
proof (cases ev)
  case (Frame r)
  then show ?thesis
    using assms by (auto simp: step_Frame simp del: step.simps(1) split: if_splits)
qed (use assms in simp_all)

lemma foldl_stopped_by_collision:
  assumes "pending e0" and "\<not> pending (foldl (step cfg) e0 evs)"
  shows "\<exists>evs1 r evs2. evs = evs1 @ Frame r # evs2 \<and>
           pending (foldl (step cfg) e0 evs1) \<and> collides cfg r (st (foldl (step cfg) e0 evs1))"
  using assms(2)
proof (induction evs rule: rev_induct)
  case Nil
  then show ?case using assms(1) by simp
next
  case (snoc ev evs)
  show ?case
  proof (cases "pending (foldl (step cfg) e0 evs)")
    case True
    then obtain r where "ev = Frame r" "collides cfg r (st (foldl (step cfg) e0 evs))"
      using step_stops_only_by_collision [of "foldl (step cfg) e0 evs" cfg ev] snoc.prems by auto
    then show ?thesis using True by blast
  next
    case False
    then obtain evs1 r evs2 where "evs = evs1 @ Frame r # evs2"
      "pending (foldl (step cfg) e0 evs1)" "collides cfg r (st (foldl (step cfg) e0 evs1))"
      using snoc.IH by blast
    then have "evs @ [ev] = evs1 @ Frame r # (evs2 @ [ev])" by simp
    then show ?thesis
      using \<open>pending (foldl (step cfg) e0 evs1)\<close> \<open>collides cfg r (st (foldl (step cfg) e0 evs1))\<close>
      by blast
  qed
qed

lemma session_stopped_by_collision:
  assumes "\<not> pending (session cfg rs s0 evs)"
  shows "\<exists>evs1 r evs2. evs = evs1 @ Frame r # evs2 \<and>
           pending (session cfg rs s0 evs1) \<and> collides cfg r (st (session cfg rs s0 evs1))"
  using foldl_stopped_by_collision [of "startSession cfg rs s0" cfg evs] assms
  by (simp add: session_def startSession_def)

lemma cfgFast_fields:
  "gameWidth cfgFast = 800" "gameHeight cfgFast = 600" "TRACK_TOP_WIDTH_RATIO cfgFast = 1 / 10"
  "TRACK_BOTTOM_WIDTH_RATIO cfgFast = 9 / 10" "ROAD_SPEED_BASE cfgFast = 320"
  by (simp_all add: cfgFast_def cfg0_def)

lemma freshFast_fields:
  "obstacles (initGame cfgFast rs0 initialRef) = []"
  "coinsList (initGame cfgFast rs0 initialRef) = []"
  "roadCurvature (initGame cfgFast rs0 initialRef) = 0"
  "curveTimer (initGame cfgFast rs0 initialRef) = 0"
  "curveDirection (initGame cfgFast rs0 initialRef) = 1"
  "score (initGame cfgFast rs0 initialRef) = 0"
  "coins (initGame cfgFast rs0 initialRef) = 0"
  "horizonY (initGame cfgFast rs0 initialRef) = 240"
  "speed (initGame cfgFast rs0 initialRef) = 320"
  "carX (initGame cfgFast rs0 initialRef) = 0"
  "keys (initGame cfgFast rs0 initialRef) = (\<lambda>k. False)"
  by (simp_all add: initGame_def initialRef_def cfgFast_fields Let_def)

lemma spawned_obstacles:
  "obstacles (snd (beforeCollisions cfgFast rndSpawn (initGame cfgFast rs0 initialRef))) =
     [\<lparr> objX = 0, objY = 190, initialWidth = 80, initialHeight = 40,
        color = ''#db2777'', objType = Obstacle \<rparr>]"
  by (simp add: beforeCollisions_obstacles spawnObstacle_def updateObjects_def freshFast_fields
        rndSpawn_def rnd0_def pickColor_def cfgFast_fields Let_def)

lemma not_collides_spawn:
  "\<not> collides cfgFast rndSpawn (initGame cfgFast rs0 initialRef)"
  by (simp add: collides_iff spawned_obstacles obstacleHit_def getProjection_def Let_def
        freshFast_fields cfgFast_fields)

lemma session_spawn:
  "pending (session cfgFast rs0 initialRef [Frame rndSpawn])"
  "fired (session cfgFast rs0 initialRef [Frame rndSpawn]) = [OnScoreUpdate 0 0]"
  "afterSpawn = fst (updateScore (finishTick cfgFast rndSpawn (initGame cfgFast rs0 initialRef)))"
  using not_collides_spawn
  by (simp_all add: afterSpawn_def session_def startSession_def step_Frame updateScore_fired
        updateScore_fields finishTick_def updateCurve_fields moveCar_fields coinPass_def
        collected_def retained_def beforeCollisions_fields beforeCollisions_coinsList
        spawnCoin_def updateObjects_def freshFast_fields rndSpawn_def rnd0_def
        del: step.simps(1))

lemma afterSpawn_fields:
  "obstacles afterSpawn =
     [\<lparr> objX = 0, objY = 190, initialWidth = 80, initialHeight = 40,
        color = ''#db2777'', objType = Obstacle \<rparr>]"
  "roadCurvature afterSpawn = 2" "carX afterSpawn = - (1 / 5000)"
  "horizonY afterSpawn = 240" "speed afterSpawn = 320"
  "score afterSpawn = 1 / 2" "coins afterSpawn = 0"
proof -
  let ?s = "initGame cfgFast rs0 initialRef"
  have d: "curveDirection (finishTick cfgFast rndSpawn ?s) = 1"
    by (simp add: finishTick_direction freshFast_fields rndSpawn_def rnd0_def)
  have c: "roadCurvature (finishTick cfgFast rndSpawn ?s) = 2"
    by (simp add: finishTick_curvature [of cfgFast rndSpawn ?s] d freshFast_fields)
  show "obstacles afterSpawn =
     [\<lparr> objX = 0, objY = 190, initialWidth = 80, initialHeight = 40,
        color = ''#db2777'', objType = Obstacle \<rparr>]"
    by (simp add: session_spawn(3) updateScore_fields finishTick_obstacles spawned_obstacles)
  show "roadCurvature afterSpawn = 2"
    by (simp add: session_spawn(3) updateScore_fields c)
  show "carX afterSpawn = - (1 / 5000)"
    by (simp add: session_spawn(3) updateScore_fields finishTick_carX c moveCar_def Let_def
          beforeCollisions_fields freshFast_fields)
  show "horizonY afterSpawn = 240" "speed afterSpawn = 320"
    by (simp_all add: session_spawn(3) updateScore_fields finishTick_def updateCurve_fields
          moveCar_fields coinPass_fields beforeCollisions_fields freshFast_fields)
  show "score afterSpawn = 1 / 2" "coins afterSpawn = 0"
    by (simp_all add: session_spawn(3) updateScore_fields finishTick_def updateCurve_fields
          moveCar_fields coinPass_def collected_def retained_def beforeCollisions_fields
          beforeCollisions_coinsList spawnCoin_def updateObjects_def freshFast_fields
          rndSpawn_def rnd0_def)
qed

lemma collides_afterSpawn: "collides cfgFast rnd0 afterSpawn"
  by (simp add: collides_iff beforeCollisions_obstacles beforeCollisions_player
        beforeCollisions_fields spawnObstacle_def updateObjects_def advance_def drawPlayer_def
        obstacleHit_def getProjection_def hitBoxPadding_def Let_def afterSpawn_fields
        rnd0_def cfgFast_fields)

text \<open>
  C1. When the obstacle loop of a tick finds an overlap (\<open>collides\<close>: some obstacle,
  after the moves, spawns and cleanup of this tick, projects inside the band of 20 around
  the player and overlaps the box shrunk by the padding), \<open>render\<close> fires
  \<open>onGameOver\<close> with the floored score and the coin count and nothing else, returns
  the state as it stood before the collision checks (score, coins, coin list, curvature,
  curve timer and direction untouched, \<open>carX\<close> only clamped), and requests no further
  frame. A frame that arrives with no callback registered changes nothing; a tick without
  overlap keeps the loop going and fires no \<open>onGameOver\<close>. So in every session
  \<open>onGameOver\<close> has fired exactly once if the loop has stopped and not at all otherwise.
  A session in which a frame runs on a colliding state has, whatever events follow, fired
  \<open>onGameOver\<close> exactly once, with the floored score and the coins of that state, and has
  stopped; and a session stops in no other way.
\<close>

theorem collision_ends_session:
  "(collides cfg r s \<longleftrightarrow>
      (\<exists>obs \<in> set (obstacles (snd (beforeCollisions cfg r s))).
         obstacleHit cfg (snd (beforeCollisions cfg r s)) (fst (beforeCollisions cfg r s))
           (horizonY s) obs)) \<and>
   (obstacleHit cfg s' player h obs \<longleftrightarrow>
      (\<exists>proj. getProjection cfg s' obs h = Some proj \<and>
         boxY player - 20 < projY proj \<and> projY proj < boxY player + 20 \<and>
         projX proj - projWidth proj / 2 < boxX player + boxWidth player / 2 - 20 \<and>
         boxX player - boxWidth player / 2 + 20 < projX proj + projWidth proj / 2)) \<and>
   (collides cfg r s \<longrightarrow>
      render cfg r s =
        Inr (snd (beforeCollisions cfg r s), [OnGameOver \<lfloor>score s\<rfloor> (coins s)], False) \<and>
      score (snd (beforeCollisions cfg r s)) = score s \<and>
      coins (snd (beforeCollisions cfg r s)) = coins s \<and>
      coinsList (snd (beforeCollisions cfg r s)) =
        filter (\<lambda>ob. objY ob < gameHeight cfg + 100)
          (coinsList (spawnCoin r (horizonY s) (updateObjects s))) \<and>
      carX (snd (beforeCollisions cfg r s)) = max (-1.8) (min 1.8 (carX s)) \<and>
      roadCurvature (snd (beforeCollisions cfg r s)) = roadCurvature s \<and>
      curveTimer (snd (beforeCollisions cfg r s)) = curveTimer s \<and>
      curveDirection (snd (beforeCollisions cfg r s)) = curveDirection s) \<and>
   (pending e \<and> collides cfg r (st e) \<longrightarrow>
      step cfg e (Frame r) =
        \<lparr> st = snd (beforeCollisions cfg r (st e)), pending = False,
          fired = fired e @ [OnGameOver \<lfloor>score (st e)\<rfloor> (coins (st e))] \<rparr>) \<and>
   (pending e \<and> \<not> collides cfg r (st e) \<longrightarrow>
      pending (step cfg e (Frame r)) \<and>
      filter isGameOver (fired (step cfg e (Frame r))) = filter isGameOver (fired e)) \<and>
   (\<not> pending e \<longrightarrow> step cfg e (Frame r) = e) \<and>
   length (filter isGameOver (fired (session cfg rs prior evs))) =
     (if pending (session cfg rs prior evs) then 0 else 1) \<and>
   (pending (session cfg rs prior pre) \<and> collides cfg r (st (session cfg rs prior pre)) \<longrightarrow>
      filter isGameOver (fired (session cfg rs prior (pre @ Frame r # post))) =
        [OnGameOver \<lfloor>score (st (session cfg rs prior pre))\<rfloor>
           (coins (st (session cfg rs prior pre)))] \<and>
      \<not> pending (session cfg rs prior (pre @ Frame r # post))) \<and>
   (\<not> pending (session cfg rs prior evs) \<longrightarrow>
      (\<exists>pre r' post. evs = pre @ Frame r' # post \<and>
         pending (session cfg rs prior pre) \<and> collides cfg r' (st (session cfg rs prior pre))))"
proof -
  have reach: "pending (session cfg rs prior pre) \<and> collides cfg r (st (session cfg rs prior pre)) \<longrightarrow>
      filter isGameOver (fired (session cfg rs prior (pre @ Frame r # post))) =
        [OnGameOver \<lfloor>score (st (session cfg rs prior pre))\<rfloor>
           (coins (st (session cfg rs prior pre)))] \<and>
      \<not> pending (session cfg rs prior (pre @ Frame r # post))"
    using session_reaching_collision [of cfg rs prior pre r post] by blast
  have only: "\<not> pending (session cfg rs prior evs) \<longrightarrow>
      (\<exists>pre r' post. evs = pre @ Frame r' # post \<and>
         pending (session cfg rs prior pre) \<and> collides cfg r' (st (session cfg rs prior pre)))"
    using session_stopped_by_collision [of cfg rs prior evs] by blast
  have rest: "(collides cfg r s \<longrightarrow>
      render cfg r s =
        Inr (snd (beforeCollisions cfg r s), [OnGameOver \<lfloor>score s\<rfloor> (coins s)], False) \<and>
      score (snd (beforeCollisions cfg r s)) = score s \<and>
      coins (snd (beforeCollisions cfg r s)) = coins s \<and>
      coinsList (snd (beforeCollisions cfg r s)) =
        filter (\<lambda>ob. objY ob < gameHeight cfg + 100)
          (coinsList (spawnCoin r (horizonY s) (updateObjects s))) \<and>
      carX (snd (beforeCollisions cfg r s)) = max (-1.8) (min 1.8 (carX s)) \<and>
      roadCurvature (snd (beforeCollisions cfg r s)) = roadCurvature s \<and>
      curveTimer (snd (beforeCollisions cfg r s)) = curveTimer s \<and>
      curveDirection (snd (beforeCollisions cfg r s)) = curveDirection s) \<and>
   (pending e \<and> collides cfg r (st e) \<longrightarrow>
      step cfg e (Frame r) =
        \<lparr> st = snd (beforeCollisions cfg r (st e)), pending = False,
          fired = fired e @ [OnGameOver \<lfloor>score (st e)\<rfloor> (coins (st e))] \<rparr>) \<and>
   (pending e \<and> \<not> collides cfg r (st e) \<longrightarrow>
      pending (step cfg e (Frame r)) \<and>
      filter isGameOver (fired (step cfg e (Frame r))) = filter isGameOver (fired e)) \<and>
   (\<not> pending e \<longrightarrow> step cfg e (Frame r) = e) \<and>
   length (filter isGameOver (fired (session cfg rs prior evs))) =
     (if pending (session cfg rs prior evs) then 0 else 1)"
    by (simp add: render_collides beforeCollisions_fields beforeCollisions_coinsList step_Frame
          updateScore_no_gameOver session_gameOver_count del: step.simps(1))
  show ?thesis
    by (intro conjI collides_iff obstacleHit_iff reach only) (use rest in blast)+
qed

theorem collision_ends_session_witness:
  "collides cfg0 rnd0 hit0 \<and>
   render cfg0 rnd0 hit0 = Inr (snd (beforeCollisions cfg0 rnd0 hit0), [OnGameOver 7 3], False) \<and>
   score (snd (beforeCollisions cfg0 rnd0 hit0)) = 7.5 \<and>
   step cfg0 eHit0 (Frame rnd0) =
     \<lparr> st = snd (beforeCollisions cfg0 rnd0 hit0), pending = False,
       fired = [OnScoreUpdate 0 0, OnGameOver 7 3] \<rparr> \<and>
   step cfg0 (step cfg0 eHit0 (Frame rnd0)) (Frame rnd0) = step cfg0 eHit0 (Frame rnd0) \<and>
   pending (step cfg0 (eHit0 \<lparr> st := fresh0 \<rparr>) (Frame rnd0)) \<and>
   pending (session cfgFast rs0 initialRef [Frame rndSpawn]) \<and>
   collides cfgFast rnd0 (st (session cfgFast rs0 initialRef [Frame rndSpawn])) \<and>
   filter isGameOver (fired (session cfgFast rs0 initialRef
       ([Frame rndSpawn] @ Frame rnd0 # [TouchStart 5, Frame rnd0, KeyDown ''a'', Frame rnd0]))) =
     [OnGameOver 0 0] \<and>
   \<not> pending (session cfgFast rs0 initialRef
       ([Frame rndSpawn] @ Frame rnd0 # [TouchStart 5, Frame rnd0, KeyDown ''a'', Frame rnd0]))"
proof -
  have sess: "filter isGameOver (fired (session cfgFast rs0 initialRef
       ([Frame rndSpawn] @ Frame rnd0 # [TouchStart 5, Frame rnd0, KeyDown ''a'', Frame rnd0]))) =
     [OnGameOver 0 0] \<and>
   \<not> pending (session cfgFast rs0 initialRef
       ([Frame rndSpawn] @ Frame rnd0 # [TouchStart 5, Frame rnd0, KeyDown ''a'', Frame rnd0]))"
    using collision_ends_session [where cfg = cfgFast and r = rnd0 and rs = rs0 and
        prior = initialRef and pre = "[Frame rndSpawn]" and
        post = "[TouchStart 5, Frame rnd0, KeyDown ''a'', Frame rnd0]"]
      session_spawn(1) collides_afterSpawn
    by (simp add: afterSpawn_def [symmetric] afterSpawn_fields del: step.simps)
  have cs: "collides cfgFast rnd0 (st (session cfgFast rs0 initialRef [Frame rndSpawn]))"
    using collides_afterSpawn by (simp add: afterSpawn_def)
  have sc: "score hit0 = 7.5" "coins hit0 = 3" by (simp_all add: hit0_def)
  have e: "pending eHit0" "st eHit0 = hit0" "fired eHit0 = [OnScoreUpdate 0 0]"
    by (simp_all add: eHit0_def)
  have e': "pending (eHit0 \<lparr> st := fresh0 \<rparr>)" "st (eHit0 \<lparr> st := fresh0 \<rparr>) = fresh0"
    by (simp_all add: eHit0_def)
  have np: "\<not> pending (step cfg0 eHit0 (Frame rnd0))"
    using collides_hit0 by (simp add: step_Frame e del: step.simps(1))
  show ?thesis
    using collision_ends_session [where cfg = cfg0 and r = rnd0 and s = hit0 and e = eHit0,
            THEN conjunct2, THEN conjunct2]
          collision_ends_session [where cfg = cfg0 and r = rnd0 and s = hit0 and
            e = "step cfg0 eHit0 (Frame rnd0)", THEN conjunct2, THEN conjunct2]
          collision_ends_session [where cfg = cfg0 and r = rnd0 and s = hit0 and
            e = "eHit0 \<lparr> st := fresh0 \<rparr>", THEN conjunct2, THEN conjunct2]
          collides_hit0 not_collides_fresh0 np sess cs session_spawn(1)
    by (simp add: sc e e' del: step.simps)
qed

section \<open>The easing of the curvature\<close>

text \<open>
  C9 (as amended). A tick that reaches the curve update (no obstacle overlap was
  detected) sets the curvature to the old curvature plus 0.01 times the distance from it
  to the target \<open>curveDirection * 200\<close>, the direction being the one in force after
  the timer step of that tick. The tick that ends the game leaves curvature and direction as they were.
  In every tick the curvature moves by at most 0.01 times the distance to the target, and
  a tick that starts away from the target ends away from it, at 0.99 times the distance.
\<close>

theorem curvature_eases:
  "\<exists>s' cbs again. render cfg r s = Inr (s', cbs, again) \<and>
     again = (\<not> collides cfg r s) \<and>
     (if again
      then roadCurvature s' = roadCurvature s + (curveDirection s' * 200 - roadCurvature s) * 0.01
      else roadCurvature s' = roadCurvature s \<and> curveDirection s' = curveDirection s) \<and>
     \<bar>roadCurvature s' - roadCurvature s\<bar> \<le> 0.01 * \<bar>curveDirection s' * 200 - roadCurvature s\<bar> \<and>
     (again \<and> roadCurvature s \<noteq> curveDirection s' * 200 \<longrightarrow>
        curveDirection s' * 200 - roadCurvature s' = 0.99 * (curveDirection s' * 200 - roadCurvature s) \<and>
        roadCurvature s' \<noteq> curveDirection s' * 200)"
proof (cases "collides cfg r s")
  case True
  then show ?thesis
    by (auto simp: render_result beforeCollisions_fields)
next
  case False
  let ?f = "finishTick cfg r s"
  have c: "roadCurvature ?f = roadCurvature s + (curveDirection ?f * 200 - roadCurvature s) * 0.01"
    by (rule finishTick_curvature)
  have a: "\<bar>roadCurvature ?f - roadCurvature s\<bar> \<le> 0.01 * \<bar>curveDirection ?f * 200 - roadCurvature s\<bar>"
    by (subst c) (simp add: abs_mult)
  have b: "curveDirection ?f * 200 - roadCurvature ?f = 0.99 * (curveDirection ?f * 200 - roadCurvature s)"
    by (subst c) (simp add: algebra_simps)
  have n: "roadCurvature s \<noteq> curveDirection ?f * 200 \<Longrightarrow> roadCurvature ?f \<noteq> curveDirection ?f * 200"
    using b by auto
  show ?thesis
    using False c a b n by (auto simp: render_result updateScore_fields)
qed

theorem curvature_eases_witness:
  "\<exists>s' cbs. render cfg0 rnd0 fresh0 = Inr (s', cbs, True) \<and> curveDirection s' = 1 \<and>
      roadCurvature fresh0 = 0 \<and> roadCurvature s' = 2"
  using curvature_eases [of cfg0 rnd0 fresh0] not_collides_fresh0
  by (auto simp: fresh0_fields render_result updateScore_fields finishTick_direction rnd0_def)

text \<open>
  C9 as stated, for every tick, fails on the tick that ends the game. On \<open>hit0\<close> the
  curvature is 0 and the direction 1 before and after the tick, where the easing formula
  gives 2. The same in a session that started from \<open>initGame\<close>: its second tick runs on
  \<open>afterSpawn\<close>, finds the overlap and leaves the curvature at 2, where the formula
  gives 3.98.
\<close>

theorem curvature_eases_collision_tick:
  "render cfg0 rnd0 hit0 = Inr (snd (beforeCollisions cfg0 rnd0 hit0), [OnGameOver 7 3], False) \<and>
   roadCurvature hit0 = 0 \<and>
   curveDirection (snd (beforeCollisions cfg0 rnd0 hit0)) = 1 \<and>
   roadCurvature (snd (beforeCollisions cfg0 rnd0 hit0)) = 0 \<and>
   roadCurvature hit0 +
     (curveDirection (snd (beforeCollisions cfg0 rnd0 hit0)) * 200 - roadCurvature hit0) * 0.01 = 2 \<and>
   roadCurvature (snd (beforeCollisions cfg0 rnd0 hit0)) \<noteq>
     roadCurvature hit0 +
     (curveDirection (snd (beforeCollisions cfg0 rnd0 hit0)) * 200 - roadCurvature hit0) * 0.01 \<and>
   afterSpawn = st (session cfgFast rs0 initialRef [Frame rndSpawn]) \<and>
   render cfgFast rnd0 afterSpawn =
     Inr (snd (beforeCollisions cfgFast rnd0 afterSpawn), [OnGameOver 0 0], False) \<and>
   roadCurvature afterSpawn = 2 \<and>
   curveDirection (snd (beforeCollisions cfgFast rnd0 afterSpawn)) = 1 \<and>
   roadCurvature (snd (beforeCollisions cfgFast rnd0 afterSpawn)) = 2 \<and>
   roadCurvature afterSpawn +
     (curveDirection (snd (beforeCollisions cfgFast rnd0 afterSpawn)) * 200 -
      roadCurvature afterSpawn) * 0.01 = 3.98"
proof -
  have h: "score hit0 = 7.5" "coins hit0 = 3" "roadCurvature hit0 = 0" "curveDirection hit0 = 1"
    by (simp_all add: hit0_def fresh0_fields)
  have d: "curveDirection afterSpawn = 1"
    by (simp add: session_spawn(3) updateScore_fields finishTick_direction freshFast_fields
          rndSpawn_def rnd0_def)
  have 1: "render cfg0 rnd0 hit0 =
      Inr (snd (beforeCollisions cfg0 rnd0 hit0), [OnGameOver 7 3], False)"
    using collides_hit0 by (simp add: render_result h)
  have 2: "render cfgFast rnd0 afterSpawn =
      Inr (snd (beforeCollisions cfgFast rnd0 afterSpawn), [OnGameOver 0 0], False)"
    using collides_afterSpawn by (simp add: render_result afterSpawn_fields)
  show ?thesis
    using 1 2 by (simp add: beforeCollisions_fields h d afterSpawn_fields afterSpawn_def [symmetric])
qed

section \<open>The periodic score report\<close>

lemma quiet_beforeCollisions:
  assumes "quiet r" "obstacles s = []" "coinsList s = []"
  shows "obstacles (snd (beforeCollisions cfg r s)) = []"
    and "coinsList (snd (beforeCollisions cfg r s)) = []"
  using assms
  by (simp_all add: quiet_def beforeCollisions_def drawPlayer_def updateObjects_def spawnObstacle_def
        spawnCoin_def cleanup_def Let_def split_def)

lemma quiet_not_collides:
  assumes "quiet r" "obstacles s = []" "coinsList s = []"
  shows "\<not> collides cfg r s"
  using quiet_beforeCollisions(1) [OF assms] by (simp add: collides_def split_def)

lemma quiet_finishTick:
  assumes "quiet r" "obstacles s = []" "coinsList s = []"
  shows "obstacles (finishTick cfg r s) = []"
    and "coinsList (finishTick cfg r s) = []"
    and "score (finishTick cfg r s) = score s"
    and "coins (finishTick cfg r s) = coins s"
  using quiet_beforeCollisions [OF assms]
  by (simp_all add: finishTick_def updateCurve_fields moveCar_fields coinPass_def collected_def
        retained_def beforeCollisions_fields)

lemma quiet_step:
  assumes "quiet r" "pending e" "obstacles (st e) = []" "coinsList (st e) = []"
  shows "pending (step cfg e (Frame r))"
    and "obstacles (st (step cfg e (Frame r))) = []"
    and "coinsList (st (step cfg e (Frame r))) = []"
    and "score (st (step cfg e (Frame r))) = score (st e) + 0.5"
    and "coins (st (step cfg e (Frame r))) = coins (st e)"
    and "fired (step cfg e (Frame r)) = fired e @ quietReports (score (st e)) (coins (st e)) 1"
  using quiet_not_collides [OF assms(1,3,4), of cfg] assms(2) quiet_finishTick [OF assms(1,3,4), of cfg]
  by (simp_all add: step_Frame updateScore_fields updateScore_fired del: step.simps(1))

lemma quietReports_append:
  "quietReports sc c (Suc n) = quietReports sc c 1 @ quietReports (sc + 0.5) c n"
  by simp

lemma quiet_run:
  assumes "quiet r"
  shows "pending e \<Longrightarrow> obstacles (st e) = [] \<Longrightarrow> coinsList (st e) = [] \<Longrightarrow>
         fired (foldl (step cfg) e (replicate n (Frame r))) =
           fired e @ quietReports (score (st e)) (coins (st e)) n"
proof (induction n arbitrary: e)
  case 0
  then show ?case by simp
next
  case (Suc n)
  let ?e = "step cfg e (Frame r)"
  note q = quiet_step [OF assms Suc.prems, of cfg]
  have "fired (foldl (step cfg) ?e (replicate n (Frame r))) =
          fired ?e @ quietReports (score (st ?e)) (coins (st ?e)) n"
    by (rule Suc.IH) (rule q)+
  then show ?case
    by (simp only: replicate_Suc foldl_Cons q quietReports_append append_assoc)
qed

lemma quiet_rnd0: "quiet rnd0"
  by (simp add: quiet_def rnd0_def)

text \<open>
  C5 (as amended). \<open>onScoreUpdate\<close> fires at the end of exactly those ticks that detect
  no obstacle overlap and whose score, after the accrual of 0.5 on top of the coin
  bonuses of the tick, has a floor that is a multiple of 10; it then carries that floor and
  the coin count. It fires at most once in a tick.
\<close>

theorem score_report_rule:
  "\<exists>s' cbs again. render cfg r s = Inr (s', cbs, again) \<and>
     again = (\<not> collides cfg r s) \<and>
     score s' = (if again then score (finishTick cfg r s) + 0.5 else score s) \<and>
     filter isScoreUpdate cbs =
       (if again \<and> \<lfloor>score s'\<rfloor> mod 10 = 0 then [OnScoreUpdate \<lfloor>score s'\<rfloor> (coins s')] else []) \<and>
     length (filter isScoreUpdate cbs) \<le> 1"
  by (cases "collides cfg r s")
     (auto simp: render_result updateScore_fired updateScore_fields beforeCollisions_fields)

theorem score_report_rule_witness:
  "render cfg0 rnd0 fresh0 =
     Inr (fst (updateScore (finishTick cfg0 rnd0 fresh0)), [OnScoreUpdate 0 0], True) \<and>
   render cfg0 rnd0 hit0 =
     Inr (snd (beforeCollisions cfg0 rnd0 hit0), [OnGameOver 7 3], False)"
proof -
  have q: "quiet rnd0" by (simp add: quiet_def rnd0_def)
  have f: "score (finishTick cfg0 rnd0 fresh0) = 0" "coins (finishTick cfg0 rnd0 fresh0) = 0"
    using quiet_finishTick [OF q, of fresh0 cfg0] by (simp_all add: fresh0_fields)
  have h: "score hit0 = 7.5" "coins hit0 = 3" by (simp_all add: hit0_def)
  show ?thesis
    using score_report_rule [of cfg0 rnd0 fresh0] score_report_rule [of cfg0 rnd0 hit0]
      not_collides_fresh0 collides_hit0
    by (simp add: render_result updateScore_fired updateScore_fields f h)
qed

text \<open>
  C5 as stated fails: in a fresh session, 21 ticks on an empty road report the score 0
  once and the score 10 twice, at the ticks that leave the score at 10 and at 10.5.
\<close>

theorem score_report_twice:
  "fired (session cfg0 rs0 initialRef (replicate 21 (Frame rnd0))) =
     [OnScoreUpdate 0 0, OnScoreUpdate 10 0, OnScoreUpdate 10 0]"
proof -
  have "fired (session cfg0 rs0 initialRef (replicate 21 (Frame rnd0))) = quietReports 0 0 21"
    unfolding session_def
    by (subst quiet_run [OF quiet_rnd0])
       (simp_all add: startSession_def fresh0_fields [unfolded fresh0_def])
  also have "\<dots> = [OnScoreUpdate 0 0, OnScoreUpdate 10 0, OnScoreUpdate 10 0]"
    by (simp add: eval_nat_numeral)
  finally show ?thesis .
qed

section \<open>The session initializer\<close>

lemma initGame_record:
  "initGame cfg rs s =
     \<lparr> carX = 0, roadCurvature = 0, curveDirection = curveDirection s,
       curveTimer = curveTimer s, score = 0, coins = 0, speed = ROAD_SPEED_BASE cfg,
       obstacles = [], coinsList = [],
       scenery = concat (map (\<lambda>i.
          [sceneryObject (-2.5) (gameHeight cfg * 0.4 + rs (2 * i) * gameHeight cfg),
           sceneryObject 2.5 (gameHeight cfg * 0.4 + rs (2 * i + 1) * gameHeight cfg)]) [0..<10]),
       roadLines = map (\<lambda>i. \<lparr> lineY = gameHeight cfg * 0.4 +
          (real i * (gameHeight cfg - gameHeight cfg * 0.4) / 12) \<rparr>) [0..<12],
       keys = keys s, touchX = touchX s, horizonY = gameHeight cfg * 0.4 \<rparr>"
  by (simp add: initGame_def Let_def)

lemma initGame_scenery_nth:
  assumes "i < 10"
  shows "scenery (initGame cfg rs s) ! (2 * i) =
           sceneryObject (-2.5) (gameHeight cfg * 0.4 + rs (2 * i) * gameHeight cfg)"
    and "scenery (initGame cfg rs s) ! (2 * i + 1) =
           sceneryObject 2.5 (gameHeight cfg * 0.4 + rs (2 * i + 1) * gameHeight cfg)"
proof -
  have "i \<in> {0,1,2,3,4,5,6,7,8,9}" using assms by auto
  then show "scenery (initGame cfg rs s) ! (2 * i) =
           sceneryObject (-2.5) (gameHeight cfg * 0.4 + rs (2 * i) * gameHeight cfg)"
    and "scenery (initGame cfg rs s) ! (2 * i + 1) =
           sceneryObject 2.5 (gameHeight cfg * 0.4 + rs (2 * i + 1) * gameHeight cfg)"
    by (auto simp: initGame_record upt_rec)
qed

lemma initGame_roadLines_nth:
  assumes "i < 12"
  shows "lineY (roadLines (initGame cfg rs s) ! i) =
           gameHeight cfg * 0.4 + real i * ((gameHeight cfg - gameHeight cfg * 0.4) / 12)"
  using assms by (simp add: initGame_record)

text \<open>
  C4 (as amended). \<open>initGame\<close> sets the horizon to 0.4 times the viewport height, lays
  12 road lines from the horizon down in equal steps of a twelfth of the distance to the
  bottom edge, empties the obstacle and coin lists, fills the scenery with 20 objects that
  alternate between the lanes -2.5 and 2.5 at the depths \<open>horizon + random * height\<close>,
  and sets \<open>carX\<close>, curvature, score and coins to 0 and the speed to the base constant.
  The curve timer, the curve direction, the key map and the touch origin are kept from the
  state it is called on. Calling it again gives what a single call gives, and two prior
  states that agree on the four kept fields give the same initial state.
\<close>

theorem initGame_resets:
  "horizonY (initGame cfg rs s) = gameHeight cfg * 0.4 \<and>
   length (roadLines (initGame cfg rs s)) = 12 \<and>
   (\<forall>i<12. lineY (roadLines (initGame cfg rs s) ! i) =
       horizonY (initGame cfg rs s) +
       real i * ((gameHeight cfg - horizonY (initGame cfg rs s)) / 12)) \<and>
   obstacles (initGame cfg rs s) = [] \<and> coinsList (initGame cfg rs s) = [] \<and>
   length (scenery (initGame cfg rs s)) = 20 \<and>
   (\<forall>i<10. scenery (initGame cfg rs s) ! (2 * i) =
              sceneryObject (-2.5) (horizonY (initGame cfg rs s) + rs (2 * i) * gameHeight cfg) \<and>
            scenery (initGame cfg rs s) ! (2 * i + 1) =
              sceneryObject 2.5 (horizonY (initGame cfg rs s) + rs (2 * i + 1) * gameHeight cfg)) \<and>
   carX (initGame cfg rs s) = 0 \<and> roadCurvature (initGame cfg rs s) = 0 \<and>
   score (initGame cfg rs s) = 0 \<and> coins (initGame cfg rs s) = 0 \<and>
   speed (initGame cfg rs s) = ROAD_SPEED_BASE cfg \<and>
   curveTimer (initGame cfg rs s) = curveTimer s \<and>
   curveDirection (initGame cfg rs s) = curveDirection s \<and>
   keys (initGame cfg rs s) = keys s \<and> touchX (initGame cfg rs s) = touchX s \<and>
   initGame cfg rs (initGame cfg' rs' s) = initGame cfg rs s \<and>
   (sameInputState s t \<longrightarrow> initGame cfg rs s = initGame cfg rs t)"
proof -
  have h: "horizonY (initGame cfg rs s) = gameHeight cfg * 0.4"
    by (simp add: initGame_record)
  have lines: "\<forall>i<12. lineY (roadLines (initGame cfg rs s) ! i) =
       horizonY (initGame cfg rs s) + real i * ((gameHeight cfg - horizonY (initGame cfg rs s)) / 12)"
    unfolding h using initGame_roadLines_nth by blast
  have scen: "\<forall>i<10. scenery (initGame cfg rs s) ! (2 * i) =
              sceneryObject (-2.5) (horizonY (initGame cfg rs s) + rs (2 * i) * gameHeight cfg) \<and>
            scenery (initGame cfg rs s) ! (2 * i + 1) =
              sceneryObject 2.5 (horizonY (initGame cfg rs s) + rs (2 * i + 1) * gameHeight cfg)"
    unfolding h using initGame_scenery_nth by blast
  have rest: "length (roadLines (initGame cfg rs s)) = 12"
    "obstacles (initGame cfg rs s) = []" "coinsList (initGame cfg rs s) = []"
    "carX (initGame cfg rs s) = 0" "roadCurvature (initGame cfg rs s) = 0"
    "score (initGame cfg rs s) = 0" "coins (initGame cfg rs s) = 0"
    "speed (initGame cfg rs s) = ROAD_SPEED_BASE cfg"
    "curveTimer (initGame cfg rs s) = curveTimer s"
    "curveDirection (initGame cfg rs s) = curveDirection s"
    "keys (initGame cfg rs s) = keys s" "touchX (initGame cfg rs s) = touchX s"
    by (simp_all add: initGame_def Let_def)
  have idem: "initGame cfg rs (initGame cfg' rs' s) = initGame cfg rs s"
    by (simp add: initGame_def Let_def)
  have same: "sameInputState s t \<longrightarrow> initGame cfg rs s = initGame cfg rs t"
    by (simp add: initGame_record sameInputState_def)
  show ?thesis
    using h lines scen rest idem same initGame_scenery_length by blast
qed

theorem initGame_resets_witness:
  "sameInputState initialRef (initialRef \<lparr> score := 120, carX := 1, coinsList := [obj0] \<rparr>) \<and>
   initGame cfg0 rs0 initialRef = initGame cfg0 rs0 (initialRef \<lparr> score := 120, carX := 1, coinsList := [obj0] \<rparr>) \<and>
   horizonY (initGame cfg0 rs0 initialRef) = 240 \<and>
   lineY (roadLines (initGame cfg0 rs0 initialRef) ! 11) = 570 \<and>
   scenery (initGame cfg0 rs0 initialRef) ! 19 = sceneryObject 2.5 540"
proof -
  have s: "sameInputState initialRef (initialRef \<lparr> score := 120, carX := 1, coinsList := [obj0] \<rparr>)"
    by (simp add: sameInputState_def)
  have l: "lineY (roadLines (initGame cfg0 rs0 initialRef) ! 11) = 570"
    and c: "scenery (initGame cfg0 rs0 initialRef) ! 19 = sceneryObject 2.5 540"
    and h: "horizonY (initGame cfg0 rs0 initialRef) = 240"
    using initGame_resets [of cfg0 rs0 initialRef cfg0 rs0 initialRef]
    by (simp_all add: cfg0_def rs0_def initGame_record upt_rec)
  show ?thesis
    using initGame_resets [of cfg0 rs0 initialRef cfg0 rs0 "initialRef \<lparr> score := 120, carX := 1, coinsList := [obj0] \<rparr>"] s l c h
    by simp
qed

lemma finishTick_inputs:
  "curveTimer (finishTick cfg r s) =
     (if curveTimer s - 1 \<le> 0 then rCurveTimer r * 200 + 100 else curveTimer s - 1)"
  "keys (finishTick cfg r s) = keys s"
  "touchX (finishTick cfg r s) = touchX s"
  by (simp_all add: finishTick_def updateCurve_def Let_def moveCar_fields coinPass_fields
        beforeCollisions_fields)

lemma quiet_rnd1: "quiet rnd1"
  by (simp add: quiet_def rnd1_def rnd0_def)

lemma prior0_fields:
  "curveTimer prior0 = 150" "curveDirection prior0 = -1" "keys prior0 ''a''"
  "touchX prior0 = Some 100"
  using quiet_not_collides [OF quiet_rnd1, of fresh0 cfg0]
  by (simp_all add: prior0_def session_def startSession_def step_Frame fresh0_def [symmetric]
        fresh0_fields updateScore_fields finishTick_inputs finishTick_direction
        handleKeyDown_def handleTouchStart_def rnd1_def rnd0_def del: step.simps(1))

text \<open>
  C4 as stated fails: a session started after \<open>prior0\<close> begins with another curve timer,
  curve direction, key map and touch origin than the first session of the component.
\<close>

theorem initGame_leaks:
  "curveTimer (initGame cfg0 rs0 prior0) = 150 \<and> curveTimer (initGame cfg0 rs0 initialRef) = 0 \<and>
   curveDirection (initGame cfg0 rs0 prior0) = -1 \<and> curveDirection (initGame cfg0 rs0 initialRef) = 1 \<and>
   keys (initGame cfg0 rs0 prior0) ''a'' \<and> \<not> keys (initGame cfg0 rs0 initialRef) ''a'' \<and>
   touchX (initGame cfg0 rs0 prior0) = Some 100 \<and> touchX (initGame cfg0 rs0 initialRef) = None \<and>
   initGame cfg0 rs0 prior0 \<noteq> initGame cfg0 rs0 initialRef"
proof -
  have a: "curveTimer (initGame cfg0 rs0 prior0) = 150" "curveDirection (initGame cfg0 rs0 prior0) = -1"
    "keys (initGame cfg0 rs0 prior0) ''a''" "touchX (initGame cfg0 rs0 prior0) = Some 100"
    by (simp_all add: initGame_record prior0_fields)
  have b: "curveTimer (initGame cfg0 rs0 initialRef) = 0" "curveDirection (initGame cfg0 rs0 initialRef) = 1"
    "\<not> keys (initGame cfg0 rs0 initialRef) ''a''" "touchX (initGame cfg0 rs0 initialRef) = None"
    by (simp_all add: initGame_record initialRef_def)
  have "initGame cfg0 rs0 prior0 \<noteq> initGame cfg0 rs0 initialRef"
    using a(1) b(1) by auto
  then show ?thesis using a b by simp
qed

section \<open>The leaderboard\<close>

lemma insort_key_append_le:
  "f a \<le> f x \<Longrightarrow> insort_key f a (ys @ x # zs) = insort_key f a ys @ x # zs"
  by (induction ys) auto

lemma insort_key_append_gt:
  "\<forall>y \<in> set ys. \<not> f a \<le> f y \<Longrightarrow> insort_key f a (ys @ zs) = ys @ insort_key f a zs"
  by (induction ys) auto

lemma sort_key_snoc:
  fixes f :: "'a \<Rightarrow> 'k::linorder"
  shows "sort_key f (xs @ [x]) =
     filter (\<lambda>y. f y \<le> f x) (sort_key f xs) @ x # filter (\<lambda>y. \<not> f y \<le> f x) (sort_key f xs)"
proof (induction xs)
  case Nil
  then show ?case by simp
next
  case (Cons a xs)
  let ?S = "sort_key f xs"
  let ?A = "filter (\<lambda>y. f y \<le> f x) ?S"
  let ?B = "filter (\<lambda>y. \<not> f y \<le> f x) ?S"
  have srt: "sorted (map f ?S)" by simp
  have step: "sort_key f ((a # xs) @ [x]) = insort_key f a (?A @ x # ?B)"
    using Cons.IH by simp
  show ?case
  proof (cases "f a \<le> f x")
    case True
    have "insort_key f a (?A @ x # ?B) = insort_key f a ?A @ x # ?B"
      using True by (rule insort_key_append_le)
    moreover have "filter (\<lambda>y. f y \<le> f x) (insort_key f a ?S) = insort_key f a ?A"
      using srt True by (simp add: filter_insort)
    moreover have "filter (\<lambda>y. \<not> f y \<le> f x) (insort_key f a ?S) = ?B"
      using True by (simp add: filter_insort_triv)
    ultimately show ?thesis using step by simp
  next
    case False
    have "\<forall>y \<in> set (?A @ [x]). \<not> f a \<le> f y" using False by auto
    then have "insort_key f a ((?A @ [x]) @ ?B) = (?A @ [x]) @ insort_key f a ?B"
      by (rule insort_key_append_gt)
    moreover have "filter (\<lambda>y. f y \<le> f x) (insort_key f a ?S) = ?A"
      using False by (simp add: filter_insort_triv)
    moreover have "filter (\<lambda>y. \<not> f y \<le> f x) (insort_key f a ?S) = insort_key f a ?B"
      using srt False by (simp add: filter_insort)
    ultimately show ?thesis using step by simp
  qed
qed

lemma sortByScore_snoc:
  "sortByScore (db @ [e]) =
     filter (\<lambda>x. entryScore e \<le> entryScore x) (sortByScore db) @
     e # filter (\<lambda>x. \<not> entryScore e \<le> entryScore x) (sortByScore db)"
  unfolding sortByScore_def by (simp add: sort_key_snoc)

lemma length_filter_sortByScore:
  "length (filter P (sortByScore db)) = length (filter P db)"
  by (simp add: sortByScore_def filter_sort)

lemma sorted_sortByScore:
  "sorted_wrt (\<lambda>a b. entryScore b \<le> entryScore a) (sortByScore xs)"
proof -
  have "sorted (map (\<lambda>e. - entryScore e) (sortByScore xs))"
    by (simp add: sortByScore_def)
  then show ?thesis by (simp add: sorted_map)
qed

lemma sortByScore_sorted_id:
  "sorted_wrt (\<lambda>a b. entryScore b \<le> entryScore a) xs \<Longrightarrow> sortByScore xs = xs"
  unfolding sortByScore_def by (rule sort_key_id_if_sorted) (simp add: sorted_map)

lemma newEntry_name:
  "entryName (newEntry up newId now name sc) =
     (if take 10 (up name) = [] then ''PILOTO'' else take 10 (up name))"
  by (simp add: newEntry_def Let_def)

lemma newEntry_name_nonempty:
  assumes "(up name = []) = (name = [])"
  shows "entryName (newEntry up newId now name sc) =
     (if name = [] then ''PILOTO'' else take 10 (up name))"
  using assms by (simp add: newEntry_name take_eq_Nil)

lemma addScore_fst:
  "fst (addScore up cap newId now writeOk name sc store) =
     take cap (sortByScore (getDB store @ [newEntry up newId now name sc]))"
  by (simp add: addScore_def Let_def)

lemma addScore_snd:
  "snd (addScore up cap newId now writeOk name sc store) =
     (if writeOk then Holds (fst (addScore up cap newId now writeOk name sc store)) else store)"
  by (simp add: addScore_def Let_def saveDB_def)

lemma addScore_sorted:
  "sorted_wrt (\<lambda>a b. entryScore b \<le> entryScore a) (fst (addScore up cap newId now writeOk name sc store))"
  unfolding addScore_fst using sorted_sortByScore by (rule sorted_wrt_take)

lemma addScore_ranked:
  assumes "ahead sc (getDB store) < cap"
  shows "fst (addScore up cap newId now writeOk name sc store) ! ahead sc (getDB store) =
           newEntry up newId now name sc"
    and "newEntry up newId now name sc \<in> set (fst (addScore up cap newId now writeOk name sc store))"
proof -
  let ?e = "newEntry up newId now name sc"
  let ?db = "getDB store"
  let ?A = "filter (\<lambda>x. entryScore ?e \<le> entryScore x) (sortByScore ?db)"
  let ?B = "filter (\<lambda>x. \<not> entryScore ?e \<le> entryScore x) (sortByScore ?db)"
  have sc: "entryScore ?e = sc" by (simp add: newEntry_def)
  have lenA: "length ?A = ahead sc ?db"
    by (simp add: length_filter_sortByScore ahead_def sc)
  have L: "sortByScore (?db @ [?e]) = ?A @ ?e # ?B" by (rule sortByScore_snoc)
  have nth: "(?A @ ?e # ?B) ! ahead sc ?db = ?e"
    using lenA by (metis nth_append_length)
  have "take cap (?A @ ?e # ?B) ! ahead sc ?db = (?A @ ?e # ?B) ! ahead sc ?db"
    using assms by (rule nth_take)
  then show 1: "fst (addScore up cap newId now writeOk name sc store) ! ahead sc ?db = ?e"
    unfolding addScore_fst L using nth by (simp only:)
  have "ahead sc ?db < length (fst (addScore up cap newId now writeOk name sc store))"
    unfolding addScore_fst L using assms lenA by simp
  then show "?e \<in> set (fst (addScore up cap newId now writeOk name sc store))"
    using 1 by (metis nth_mem)
qed

lemma addScore_below_all:
  assumes "length (getDB store) = cap" and "\<forall>x \<in> set (getDB store). sc < entryScore x"
  shows "fst (addScore up cap newId now writeOk name sc store) = sortByScore (getDB store)"
proof -
  let ?e = "newEntry up newId now name sc"
  let ?db = "getDB store"
  have sc: "entryScore ?e = sc" by (simp add: newEntry_def)
  have all: "\<forall>x \<in> set (sortByScore ?db). entryScore ?e \<le> entryScore x"
    using assms(2) by (auto simp: sortByScore_def sc)
  have A: "filter (\<lambda>x. entryScore ?e \<le> entryScore x) (sortByScore ?db) = sortByScore ?db"
    using all by (simp add: filter_id_conv)
  have B: "filter (\<lambda>x. \<not> entryScore ?e \<le> entryScore x) (sortByScore ?db) = []"
    using all by (simp add: filter_empty_conv)
  have "sortByScore (?db @ [?e]) = sortByScore ?db @ [?e]"
    by (simp add: sortByScore_snoc [of ?db ?e] A B)
  moreover have "length (sortByScore ?db) = cap"
    using assms(1) by (simp add: sortByScore_def)
  ultimately show ?thesis by (simp add: addScore_fst)
qed

lemma upperAscii_example: "take 10 (upperAscii ''ana maria silva'') = ''ANA MARIA ''"
  by (simp add: upperAscii_def)

lemma upperAscii_empty: "(upperAscii name = []) = (name = [])"
  by (simp add: upperAscii_def)

text \<open>
  C6. \<open>addScore\<close> builds an entry whose score is the given score and whose name is the
  upper-cased name cut to 10 code units, or \<open>PILOTO\<close> when that is empty; as upper-casing
  makes only the empty string empty, that is: \<open>PILOTO\<close> exactly when the name is empty.
  The list it returns is sorted by descending score, has at most \<open>cap\<close> entries, all of
  them stored entries or the new one, and is what the store holds afterwards when the
  write succeeds (so that \<open>getAll\<close> returns it). If fewer than \<open>cap\<close> stored entries
  have a score of at least the new one, the new entry is in the list, right behind them.
  If the store holds exactly \<open>cap\<close> entries, all with a higher score, the list is the
  sorted store: the new entry is dropped and the members are unchanged.
\<close>

theorem addScore_spec:
  "entryName (newEntry up newId now name sc) =
     (if take 10 (up name) = [] then ''PILOTO'' else take 10 (up name)) \<and>
   ((up name = []) = (name = []) \<longrightarrow>
      entryName (newEntry up newId now name sc) =
        (if name = [] then ''PILOTO'' else take 10 (up name))) \<and>
   entryScore (newEntry up newId now name sc) = sc \<and>
   sorted_wrt (\<lambda>a b. entryScore b \<le> entryScore a)
     (fst (addScore up cap newId now writeOk name sc store)) \<and>
   length (fst (addScore up cap newId now writeOk name sc store)) \<le> cap \<and>
   set (fst (addScore up cap newId now writeOk name sc store)) \<subseteq>
     insert (newEntry up newId now name sc) (set (getDB store)) \<and>
   (writeOk \<longrightarrow>
      snd (addScore up cap newId now writeOk name sc store) =
        Holds (fst (addScore up cap newId now writeOk name sc store)) \<and>
      getAll (snd (addScore up cap newId now writeOk name sc store)) =
        fst (addScore up cap newId now writeOk name sc store)) \<and>
   (ahead sc (getDB store) < cap \<longrightarrow>
      newEntry up newId now name sc \<in> set (fst (addScore up cap newId now writeOk name sc store)) \<and>
      fst (addScore up cap newId now writeOk name sc store) ! ahead sc (getDB store) =
        newEntry up newId now name sc) \<and>
   (length (getDB store) = cap \<and> (\<forall>x \<in> set (getDB store). sc < entryScore x) \<longrightarrow>
      fst (addScore up cap newId now writeOk name sc store) = sortByScore (getDB store) \<and>
      set (fst (addScore up cap newId now writeOk name sc store)) = set (getDB store))"
proof -
  let ?u = "fst (addScore up cap newId now writeOk name sc store)"
  have 1: "entryScore (newEntry up newId now name sc) = sc" by (simp add: newEntry_def)
  have 2: "length ?u \<le> cap" by (simp add: addScore_fst)
  have 3: "set ?u \<subseteq> insert (newEntry up newId now name sc) (set (getDB store))"
  proof -
    have "set ?u \<subseteq> set (sortByScore (getDB store @ [newEntry up newId now name sc]))"
      unfolding addScore_fst by (rule set_take_subset)
    then show ?thesis by (auto simp: sortByScore_def)
  qed
  have 4: "writeOk \<longrightarrow> snd (addScore up cap newId now writeOk name sc store) = Holds ?u \<and>
      getAll (snd (addScore up cap newId now writeOk name sc store)) = ?u"
    using sortByScore_sorted_id [OF addScore_sorted [of up cap newId now writeOk name sc store]]
    by (simp add: addScore_snd getAll_def getDB_def addScore_fst)
  have 5: "length (getDB store) = cap \<and> (\<forall>x \<in> set (getDB store). sc < entryScore x) \<longrightarrow>
      ?u = sortByScore (getDB store) \<and> set ?u = set (getDB store)"
    by (auto simp: addScore_below_all) (simp_all add: sortByScore_def)
  have 0: "entryName (newEntry up newId now name sc) =
     (if take 10 (up name) = [] then ''PILOTO'' else take 10 (up name))"
    by (rule newEntry_name)
  have 8: "(up name = []) = (name = []) \<longrightarrow>
      entryName (newEntry up newId now name sc) =
        (if name = [] then ''PILOTO'' else take 10 (up name))"
    by (simp add: newEntry_name_nonempty)
  have 6: "ahead sc (getDB store) < cap \<longrightarrow>
      newEntry up newId now name sc \<in> set ?u \<and> ?u ! ahead sc (getDB store) = newEntry up newId now name sc"
    by (simp add: addScore_ranked)
  have 7: "sorted_wrt (\<lambda>a b. entryScore b \<le> entryScore a) ?u"
    by (rule addScore_sorted)
  show ?thesis
    by (intro conjI; fact)
qed

theorem addScore_spec_witness:
  "fst (addScore upperAscii 3 ''id4'' ''d4'' True ''ana maria silva'' 45 store0) =
     [entryB, \<lparr> entryId = ''id4'', entryName = ''ANA MARIA '', entryScore = 45, entryDate = ''d4'' \<rparr>, entryC] \<and>
   snd (addScore upperAscii 3 ''id4'' ''d4'' True ''ana maria silva'' 45 store0) =
     Holds [entryB, \<lparr> entryId = ''id4'', entryName = ''ANA MARIA '', entryScore = 45, entryDate = ''d4'' \<rparr>, entryC] \<and>
   ahead 45 (getDB store0) = 1 \<and>
   fst (addScore upperAscii 3 ''id5'' ''d5'' True '''' 10 store0) = [entryB, entryC, entryA] \<and>
   entryName (newEntry upperAscii ''id5'' ''d5'' '''' 10) = ''PILOTO'' \<and>
   (upperAscii ''ana maria silva'' = []) = (''ana maria silva'' = []) \<and>
   length (getDB store0) = 3"
proof -
  have db: "getDB store0 = [entryA, entryB, entryC]" by (simp add: store0_def getDB_def)
  have sc: "entryScore entryA = 30" "entryScore entryB = 50" "entryScore entryC = 40"
    by (simp_all add: entryA_def entryB_def entryC_def)
  have ah: "ahead 45 [entryA, entryB, entryC] = 1" "ahead 10 [entryA, entryB, entryC] = 3"
    by (simp_all add: ahead_def sc)
  have srt: "sortByScore [entryA, entryB, entryC] = [entryB, entryC, entryA]"
    by (simp add: sortByScore_def sc)
  have ne: "newEntry upperAscii ''id4'' ''d4'' ''ana maria silva'' 45 =
      \<lparr> entryId = ''id4'', entryName = ''ANA MARIA '', entryScore = 45, entryDate = ''d4'' \<rparr>"
    by (simp add: newEntry_def upperAscii_example Let_def)
  have u1: "fst (addScore upperAscii 3 ''id4'' ''d4'' True ''ana maria silva'' 45 store0) =
     [entryB, \<lparr> entryId = ''id4'', entryName = ''ANA MARIA '', entryScore = 45, entryDate = ''d4'' \<rparr>, entryC]"
    by (simp add: addScore_fst db ne sortByScore_def sc)
  show ?thesis
    using addScore_spec [where up = upperAscii and newId = "''id4''" and now = "''d4''" and
            name = "''ana maria silva''" and sc = 45 and cap = 3 and writeOk = True and
            store = store0]
          addScore_spec [where up = upperAscii and newId = "''id5''" and now = "''d5''" and
            name = "''''" and sc = 10 and cap = 3 and writeOk = True and store = store0]
    by (simp add: ah db srt sc u1 upperAscii_empty)
qed

end
